theory Spec2Isabelle
  imports Main "HOL-Library.Word" "HOL-Library.Multiset"
begin

section \<open>HotSpot C2 MemPointer (opto/mempointer.hpp)\<close>

text \<open>
  A shallow embedding of the classes of \<^verbatim>\<open>src/hotspot/share/opto/mempointer.hpp\<close>:
  \<^verbatim>\<open>MemPointerAliasing\<close>, \<^verbatim>\<open>MemPointerSummand\<close>, \<^verbatim>\<open>MemPointerDecomposedForm\<close> and
  \<^verbatim>\<open>MemPointer\<close>.

  Conventions.
  \<^item> \<^verbatim>\<open>jint\<close> is a 32-bit word, read as two's complement with \<open>sint\<close>.
  \<^item> \<^verbatim>\<open>Node*\<close> is an address or \<^verbatim>\<open>nullptr\<close>: \<open>nat option\<close>, \<open>None\<close> the null pointer.
    Pointer comparison is comparison of addresses. The \<^verbatim>\<open>_idx\<close> field read through a
    node pointer is a parameter \<open>idx\<close> of the functions that read it.
  \<^item> HotSpot's \<^verbatim>\<open>assert(cond, msg)\<close> is modelled as in a debug build: a failed assertion
    ends the computation with the error \<open>AssertionFailure msg\<close>. Every function that can
    reach an assertion returns \<open>error + 'a\<close>, with \<open>Inl\<close> the failure.
\<close>

type_synonym jint = "32 word"

type_synonym Node_ptr = "nat option"

datatype error = AssertionFailure string

subsection \<open>NoOverflowInt\<close>

text \<open>
  Modelled from the spec: the class \<^verbatim>\<open>NoOverflowInt\<close> of \<^verbatim>\<open>opto/noOverflowInt.hpp\<close>,
  which the header includes and which is not among the source files. The spec's words
  (section 3, bounded-overflow integer): it wraps a fixed-width signed integer; an
  operation whose mathematical result does not fit the width, or that has an invalid
  operand, yields the invalid value NaN; two values compare unequal if either is
  invalid; the zero-check on an invalid value is false.
\<close>

datatype NoOverflowInt = NaN | Value jint

definition make_NaN :: NoOverflowInt where
  "make_NaN = NaN"

definition NoOverflowInt_of :: "int \<Rightarrow> NoOverflowInt" where
  "NoOverflowInt_of v =
     (if - (2 ^ 31) \<le> v \<and> v < 2 ^ 31 then Value (word_of_int v) else NaN)"

definition is_NaN :: "NoOverflowInt \<Rightarrow> bool" where
  "is_NaN a = (case a of NaN \<Rightarrow> True | Value _ \<Rightarrow> False)"

definition is_zero :: "NoOverflowInt \<Rightarrow> bool" where
  "is_zero a = (case a of NaN \<Rightarrow> False | Value v \<Rightarrow> v = 0)"

definition NoOverflowInt_eq :: "NoOverflowInt \<Rightarrow> NoOverflowInt \<Rightarrow> bool" where
  "NoOverflowInt_eq a b =
     (case a of NaN \<Rightarrow> False
      | Value x \<Rightarrow> (case b of NaN \<Rightarrow> False | Value y \<Rightarrow> x = y))"

definition NoOverflowInt_sub :: "NoOverflowInt \<Rightarrow> NoOverflowInt \<Rightarrow> NoOverflowInt" where
  "NoOverflowInt_sub a b =
     (case a of NaN \<Rightarrow> NaN
      | Value x \<Rightarrow> (case b of NaN \<Rightarrow> NaN | Value y \<Rightarrow> NoOverflowInt_of (sint x - sint y)))"

definition NoOverflowInt_add :: "NoOverflowInt \<Rightarrow> NoOverflowInt \<Rightarrow> NoOverflowInt" where
  "NoOverflowInt_add a b =
     (case a of NaN \<Rightarrow> NaN
      | Value x \<Rightarrow> (case b of NaN \<Rightarrow> NaN | Value y \<Rightarrow> NoOverflowInt_of (sint x + sint y)))"

definition NoOverflowInt_mul :: "NoOverflowInt \<Rightarrow> NoOverflowInt \<Rightarrow> NoOverflowInt" where
  "NoOverflowInt_mul a b =
     (case a of NaN \<Rightarrow> NaN
      | Value x \<Rightarrow> (case b of NaN \<Rightarrow> NaN | Value y \<Rightarrow> NoOverflowInt_of (sint x * sint y)))"

subsection \<open>MemPointerAliasing\<close>

datatype Aliasing = Unknown | Always

record MemPointerAliasing =
  aliasing :: Aliasing
  distance :: jint

text \<open>
  The private constructor (mempointer.hpp:252-258): \<^verbatim>\<open>max_distance = 1 << 30\<close> and
  \<^verbatim>\<open>assert(_distance < max_distance && _distance > -max_distance, "safe distance")\<close>,
  a signed comparison of \<^verbatim>\<open>jint\<close>s.
\<close>

definition max_distance :: jint where
  "max_distance = push_bit 30 1"

definition MemPointerAliasing_ctor :: "Aliasing \<Rightarrow> jint \<Rightarrow> error + MemPointerAliasing" where
  "MemPointerAliasing_ctor a d =
     (if sint d < sint max_distance \<and> sint d > sint (- max_distance)
      then Inr \<lparr>aliasing = a, distance = d\<rparr>
      else Inl (AssertionFailure ''safe distance''))"

definition make_unknown :: "error + MemPointerAliasing" where
  "make_unknown = MemPointerAliasing_ctor Unknown 0"

definition make_always :: "jint \<Rightarrow> error + MemPointerAliasing" where
  "make_always d = MemPointerAliasing_ctor Always d"

definition is_always_at_distance :: "MemPointerAliasing \<Rightarrow> jint \<Rightarrow> bool" where
  "is_always_at_distance v d = (aliasing v = Always \<and> distance v = d)"

subsection \<open>MemPointerSummand\<close>

record MemPointerSummand =
  variable :: Node_ptr
  scale :: NoOverflowInt

text \<open>The default constructor (mempointer.hpp:297-299): the empty summand.\<close>

definition MemPointerSummand_empty :: MemPointerSummand where
  "MemPointerSummand_empty = \<lparr>variable = None, scale = make_NaN\<rparr>"

text \<open>The constructor from a variable and a scale (mempointer.hpp:300-306).\<close>

definition MemPointerSummand_ctor ::
  "Node_ptr \<Rightarrow> NoOverflowInt \<Rightarrow> error + MemPointerSummand" where
  "MemPointerSummand_ctor v s =
     (if v = None then Inl (AssertionFailure ''must have variable'')
      else if is_zero s then Inl (AssertionFailure ''non-zero scale'')
      else Inr \<lparr>variable = v, scale = s\<rparr>)"

text \<open>
  \<^verbatim>\<open>cmp_for_sort\<close> (mempointer.hpp:311-319). \<^verbatim>\<open>_idx\<close> is an unsigned 32-bit
  \<^verbatim>\<open>node_idx_t\<close>; the difference of two of them is computed modulo \<open>2^32\<close> and returned
  as an \<^verbatim>\<open>int\<close>.
\<close>

definition cmp_for_sort ::
  "(nat \<Rightarrow> 32 word) \<Rightarrow> MemPointerSummand \<Rightarrow> MemPointerSummand \<Rightarrow> int" where
  "cmp_for_sort idx p1 p2 =
     (case variable p1 of
        None \<Rightarrow> (case variable p2 of None \<Rightarrow> 0 | Some _ \<Rightarrow> 1)
      | Some v1 \<Rightarrow>
          (case variable p2 of
             None \<Rightarrow> - 1
           | Some v2 \<Rightarrow> sint (idx v1 - idx v2)))"

text \<open>\<^verbatim>\<open>operator==\<close> and \<^verbatim>\<open>operator!=\<close> (mempointer.hpp:321-332).\<close>

definition MemPointerSummand_eq :: "MemPointerSummand \<Rightarrow> MemPointerSummand \<Rightarrow> bool" where
  "MemPointerSummand_eq a b =
     (if variable a = None \<and> variable b = None then True
      else if variable a \<noteq> variable b then False
      else NoOverflowInt_eq (scale a) (scale b))"

definition MemPointerSummand_neq :: "MemPointerSummand \<Rightarrow> MemPointerSummand \<Rightarrow> bool" where
  "MemPointerSummand_neq a b = (\<not> MemPointerSummand_eq a b)"

subsection \<open>MemPointerDecomposedForm\<close>

definition SUMMANDS_SIZE :: nat where
  "SUMMANDS_SIZE = 10"

text \<open>
  The member \<^verbatim>\<open>_summands[SUMMANDS_SIZE]\<close> is a list; every constructor fills it with
  \<open>SUMMANDS_SIZE\<close> default-constructed (empty) summands before its body runs.
\<close>

record MemPointerDecomposedForm =
  pointer :: Node_ptr
  summands :: "MemPointerSummand list"
  con :: NoOverflowInt

definition empty_summands :: "MemPointerSummand list" where
  "empty_summands = replicate SUMMANDS_SIZE MemPointerSummand_empty"

text \<open>The empty form (mempointer.hpp:364).\<close>

definition MemPointerDecomposedForm_empty :: MemPointerDecomposedForm where
  "MemPointerDecomposedForm_empty =
     \<lparr>pointer = None, summands = empty_summands, con = make_NaN\<rparr>"

text \<open>The default / trivial form \<^verbatim>\<open>pointer = 0 + 1 * pointer\<close> (mempointer.hpp:366-369).\<close>

definition MemPointerDecomposedForm_trivial :: "Node_ptr \<Rightarrow> error + MemPointerDecomposedForm" where
  "MemPointerDecomposedForm_trivial p =
     (if p = None then Inl (AssertionFailure ''pointer must be non-null'')
      else (case MemPointerSummand_ctor p (NoOverflowInt_of 1) of
              Inl e \<Rightarrow> Inl e
            | Inr s \<Rightarrow>
                Inr \<lparr>pointer = p, summands = empty_summands[0 := s],
                     con = NoOverflowInt_of 0\<rparr>))"

text \<open>
  The private constructor (mempointer.hpp:372-382). \<open>copy_summands\<close> is its loop:
  \<open>ss\<close> are the elements \<^verbatim>\<open>summands.at(i)\<close>, \<^verbatim>\<open>summands.at(i+1)\<close>, ... still to copy.
\<close>

fun copy_summands ::
  "MemPointerSummand list \<Rightarrow> nat \<Rightarrow> MemPointerSummand list \<Rightarrow> error + MemPointerSummand list" where
  "copy_summands [] i arr = Inr arr"
| "copy_summands (s # ss) i arr =
     (if variable s = None then Inl (AssertionFailure ''variable cannot be null'')
      else if is_NaN (scale s) then Inl (AssertionFailure ''non-NaN scale'')
      else copy_summands ss (Suc i) (arr[i := s]))"

definition MemPointerDecomposedForm_ctor ::
  "Node_ptr \<Rightarrow> MemPointerSummand list \<Rightarrow> NoOverflowInt \<Rightarrow> error + MemPointerDecomposedForm" where
  "MemPointerDecomposedForm_ctor p ss c =
     (if is_NaN c then Inl (AssertionFailure ''non-NaN constant'')
      else if \<not> length ss \<le> SUMMANDS_SIZE then Inl (AssertionFailure ''summands must fit'')
      else (case copy_summands ss 0 empty_summands of
              Inl e \<Rightarrow> Inl e
            | Inr arr \<Rightarrow> Inr \<lparr>pointer = p, summands = arr, con = c\<rparr>))"

text \<open>\<^verbatim>\<open>MemPointerDecomposedForm::make\<close> (mempointer.hpp:385-391).\<close>

definition MemPointerDecomposedForm_make ::
  "Node_ptr \<Rightarrow> MemPointerSummand list \<Rightarrow> NoOverflowInt \<Rightarrow> error + MemPointerDecomposedForm" where
  "MemPointerDecomposedForm_make p ss c =
     (if length ss \<le> SUMMANDS_SIZE then MemPointerDecomposedForm_ctor p ss c
      else MemPointerDecomposedForm_trivial p)"

text \<open>\<^verbatim>\<open>summands_at\<close> (mempointer.hpp:396-399).\<close>

definition summands_at :: "MemPointerDecomposedForm \<Rightarrow> nat \<Rightarrow> error + MemPointerSummand" where
  "summands_at f i =
     (if i < SUMMANDS_SIZE then Inr (summands f ! i) else Inl (AssertionFailure ''in bounds''))"

subsection \<open>MemPointer\<close>

text \<open>
  A \<^verbatim>\<open>MemNode\<close> is known here by what the header asks of it: \<^verbatim>\<open>is_Store()\<close> and
  \<^verbatim>\<open>memory_size()\<close>, and the address input \<^verbatim>\<open>in(MemNode::Address)\<close>, the pointer that
  is parsed.
\<close>

record MemNode =
  is_Store :: bool
  memory_size :: jint
  address :: Node_ptr

record MemPointer =
  mem :: MemNode
  decomposed_form :: MemPointerDecomposedForm

text \<open>
  \<^verbatim>\<open>init_decomposed_form\<close> (mempointer.hpp:479-484) and the constructor of
  \<^verbatim>\<open>MemPointer\<close> (mempointer.hpp:459-472). The parser
  \<^verbatim>\<open>MemPointerDecomposedFormParser(mem).decomposed_form()\<close>, whose body is not in the
  header, is the parameter \<open>parser\<close>.
\<close>

definition init_decomposed_form ::
  "(MemNode \<Rightarrow> error + MemPointerDecomposedForm) \<Rightarrow> MemNode \<Rightarrow> error + MemPointerDecomposedForm" where
  "init_decomposed_form parser m =
     (if is_Store m then parser m
      else Inl (AssertionFailure ''only stores are supported''))"

definition MemPointer_ctor ::
  "(MemNode \<Rightarrow> error + MemPointerDecomposedForm) \<Rightarrow> MemNode \<Rightarrow> error + MemPointer" where
  "MemPointer_ctor parser m =
     (case init_decomposed_form parser m of
        Inl e \<Rightarrow> Inl e
      | Inr f \<Rightarrow> Inr \<lparr>mem = m, decomposed_form = f\<rparr>)"

subsection \<open>The aliasing comparator\<close>

text \<open>
  Modelled from the spec: \<^verbatim>\<open>MemPointerDecomposedForm::get_aliasing_with\<close>, declared at
  mempointer.hpp:393-394; its body is in \<^verbatim>\<open>mempointer.cpp\<close>, which is not among the
  source files. The spec's words (section 4.2): sort each form's summands by a total order
  over term identity (stable, deterministic; empty summands sort last); compare the sorted
  summand sequences for exact pairwise equality; if unequal the verdict is Unknown; if
  equal, compute \<open>distance = B.constant - A.constant\<close> with bounded-overflow subtraction; if
  the subtraction is invalid or does not fit the narrow distance range (\<open>abs < 2^30\<close>) the
  verdict is Unknown, otherwise it is \<open>Always(distance)\<close>.

  \<open>A\<close> is the receiver \<^verbatim>\<open>this\<close> and \<open>B\<close> the argument \<^verbatim>\<open>other\<close> of the declaration.
  The order is the header's \<open>cmp_for_sort\<close>, the sort a stable insertion sort, the
  equality the header's \<^verbatim>\<open>operator!=\<close> on the \<open>SUMMANDS_SIZE\<close> slots, and the verdicts are
  built by the header's \<open>make_unknown\<close> and \<open>make_always\<close>.
\<close>

fun insert_summand ::
  "(nat \<Rightarrow> 32 word) \<Rightarrow> MemPointerSummand \<Rightarrow> MemPointerSummand list \<Rightarrow> MemPointerSummand list" where
  "insert_summand idx s [] = [s]"
| "insert_summand idx s (t # ts) =
     (if cmp_for_sort idx s t \<le> 0 then s # t # ts else t # insert_summand idx s ts)"

fun sort_summands :: "(nat \<Rightarrow> 32 word) \<Rightarrow> MemPointerSummand list \<Rightarrow> MemPointerSummand list" where
  "sort_summands idx [] = []"
| "sort_summands idx (s # ss) = insert_summand idx s (sort_summands idx ss)"

definition summands_differ :: "MemPointerSummand list \<Rightarrow> MemPointerSummand list \<Rightarrow> bool" where
  "summands_differ s1 s2 =
     list_ex (\<lambda>i. MemPointerSummand_neq (s1 ! i) (s2 ! i)) [0..<SUMMANDS_SIZE]"

definition get_aliasing_with ::
  "(nat \<Rightarrow> 32 word) \<Rightarrow> MemPointerDecomposedForm \<Rightarrow> MemPointerDecomposedForm
     \<Rightarrow> error + MemPointerAliasing" where
  "get_aliasing_with idx this other =
     (if summands_differ (sort_summands idx (summands this)) (sort_summands idx (summands other))
      then make_unknown
      else (case NoOverflowInt_sub (con other) (con this) of
              NaN \<Rightarrow> make_unknown
            | Value d \<Rightarrow> if \<bar>sint d\<bar> < 2 ^ 30 then make_always d else make_unknown))"

text \<open>
  Modelled from the spec: \<^verbatim>\<open>MemPointer::is_adjacent_to_and_before\<close>, declared at
  mempointer.hpp:476; its body is in \<^verbatim>\<open>mempointer.cpp\<close>. The spec's words (section 4.3):
  true iff the comparator returns \<open>Always(distance)\<close> for the two forms and \<open>distance\<close>
  equals the byte width of \<open>self\<close>'s access, i.e. \<open>self\<close> ends exactly where \<open>other\<close>
  begins. The receiver's form is the comparator's receiver, so that the distance is
  \<open>other.constant - self.constant\<close>; the test is the header's \<open>is_always_at_distance\<close>.
\<close>

definition is_adjacent_to_and_before ::
  "(nat \<Rightarrow> 32 word) \<Rightarrow> MemPointer \<Rightarrow> MemPointer \<Rightarrow> error + bool" where
  "is_adjacent_to_and_before idx self other =
     (case get_aliasing_with idx (decomposed_form self) (decomposed_form other) of
        Inl e \<Rightarrow> Inl e
      | Inr a \<Rightarrow> Inr (is_always_at_distance a (memory_size (mem self))))"

text \<open>
  The order the spec names for the sort: the creation-order index of the term, read as the
  unsigned \<^verbatim>\<open>node_idx_t\<close> it is, with every empty summand after every term.
\<close>

definition summand_sort_key :: "(nat \<Rightarrow> 32 word) \<Rightarrow> MemPointerSummand \<Rightarrow> int" where
  "summand_sort_key idx s = (case variable s of None \<Rightarrow> 2 ^ 32 | Some v \<Rightarrow> uint (idx v))"

text \<open>
  The node indices for which the \<^verbatim>\<open>int\<close> difference of \<open>cmp_for_sort\<close> does not wrap
  around: those below \<open>2^31\<close>.
\<close>

definition in_idx_range :: "(nat \<Rightarrow> 32 word) \<Rightarrow> MemPointerSummand \<Rightarrow> bool" where
  "in_idx_range idx s = (case variable s of None \<Rightarrow> True | Some v \<Rightarrow> uint (idx v) < 2 ^ 31)"

subsection \<open>The MemPointer Lemma\<close>

text \<open>
  The header states and proves the "MemPointer Lemma" in its leading comment
  (mempointer.hpp:36-50 and 106-213). Its notions, over mathematical integers as in the
  comment:
  \<^item> the value of a decomposed form, \<^verbatim>\<open>pointer = con + sum_i(scale_i * variable_i)\<close>, under
    an assignment \<open>env\<close> of values to the variables; it exists when the constant and the
    scale of every summand with a variable are valid;
  \<^item> a safe decomposition from \<open>mp_i\<close> to \<open>mp_i1\<close>: either (SAFE1) \<open>mp_i = mp_i1\<close>, or
    (SAFE2) the pointer is on an array with a known \<^verbatim>\<open>array_element_size_in_bytes\<close> and
    there is an integer \<open>x\<close> with \<open>mp_i = mp_i1 + x * array_element_size_in_bytes * 2^32\<close>,
    which is divisibility of \<open>mp_i - mp_i1\<close>;
  \<^item> the sequence of decompositions from the pointer \<open>p = mp_0\<close> to \<open>mp = mp_n\<close>, given by
    the values \<open>mp_0, ..., mp_n\<close>;
  \<^item> a memory object with its bounds; for an array,
    \<^verbatim>\<open>array_element_size_in_bytes * 2^31 >= max_possible_array_size_in_bytes >= array_size_in_bytes\<close>.
\<close>

definition summand_value :: "(nat \<Rightarrow> int) \<Rightarrow> MemPointerSummand \<Rightarrow> int option" where
  "summand_value env s =
     (case variable s of
        None \<Rightarrow> Some 0
      | Some v \<Rightarrow> (case scale s of NaN \<Rightarrow> None | Value k \<Rightarrow> Some (sint k * env v)))"

fun sum_summands :: "(nat \<Rightarrow> int) \<Rightarrow> MemPointerSummand list \<Rightarrow> int option" where
  "sum_summands env [] = Some 0"
| "sum_summands env (s # ss) =
     (case summand_value env s of
        None \<Rightarrow> None
      | Some x \<Rightarrow> (case sum_summands env ss of None \<Rightarrow> None | Some y \<Rightarrow> Some (x + y)))"

definition form_value :: "(nat \<Rightarrow> int) \<Rightarrow> MemPointerDecomposedForm \<Rightarrow> int option" where
  "form_value env f =
     (case con f of
        NaN \<Rightarrow> None
      | Value c \<Rightarrow>
          (case sum_summands env (summands f) of None \<Rightarrow> None | Some s \<Rightarrow> Some (sint c + s)))"

definition safe_decomposition :: "int option \<Rightarrow> int \<Rightarrow> int \<Rightarrow> bool" where
  "safe_decomposition aes mp_i mp_i1 =
     (mp_i = mp_i1 \<or>
      (case aes of None \<Rightarrow> False | Some a \<Rightarrow> (a * 2 ^ 32) dvd (mp_i - mp_i1)))"

fun safe_decompositions :: "int option \<Rightarrow> int list \<Rightarrow> bool" where
  "safe_decompositions aes [] = True"
| "safe_decompositions aes [m] = True"
| "safe_decompositions aes (m # m' # ms) =
     (safe_decomposition aes m m' \<and> safe_decompositions aes (m' # ms))"

definition decomposed_by :: "int option \<Rightarrow> int list \<Rightarrow> int \<Rightarrow> int \<Rightarrow> bool" where
  "decomposed_by aes ms p mp =
     (ms \<noteq> [] \<and> hd ms = p \<and> last ms = mp \<and> safe_decompositions aes ms)"

record MemoryObject =
  base :: int
  size_in_bytes :: int
  array_element_size_in_bytes :: "int option"

definition valid_object :: "MemoryObject \<Rightarrow> bool" where
  "valid_object obj =
     (case array_element_size_in_bytes obj of
        None \<Rightarrow> True
      | Some a \<Rightarrow> 0 < a \<and> size_in_bytes obj \<le> a * 2 ^ 31)"

definition in_bounds :: "MemoryObject \<Rightarrow> int \<Rightarrow> bool" where
  "in_bounds obj p = (base obj \<le> p \<and> p \<le> base obj + size_in_bytes obj)"


subsection \<open>The decomposition parser\<close>

text \<open>
  Modelled from the spec: \<^verbatim>\<open>MemPointerDecomposedFormParser\<close>. The header declares its
  members \<^verbatim>\<open>_con\<close>, \<^verbatim>\<open>_worklist\<close>, \<^verbatim>\<open>_summands\<close> and its functions
  \<^verbatim>\<open>parse_decomposed_form\<close>, \<^verbatim>\<open>parse_sub_expression\<close> and \<^verbatim>\<open>is_safe_to_decompose_op\<close>
  (mempointer.hpp:423-447); their bodies are in \<^verbatim>\<open>mempointer.cpp\<close>, and the node graph is
  in \<^verbatim>\<open>opto/node.hpp\<close>, neither among the source files. The spec's words (sections 4.1,
  6 and 7):
  \<^item> the host graph gives each node's operator kind, one of literal, add, subtract,
    scalar-multiply, left-shift, widening-convert and opaque, with its static operands
    (the literal value, the multiplier constant, the shift amount);
  \<^item> the worklist starts with the trivial summand of the pointer, scale 1; the constant
    accumulator starts at 0;
  \<^item> a popped summand whose term is a literal folds \<open>scale * literal\<close> into the constant,
    and an overflow aborts to the trivial fallback;
  \<^item> a popped summand whose term is a decomposable operator for which
    \<open>is_safe_to_decompose\<close> holds is replaced by its sub-summands
    (\<open>scale*(a+b)\<close> by \<open>scale*a\<close> and \<open>scale*b\<close>, \<open>scale*(a<<c)\<close> by \<open>(scale*2^c)*a\<close>), pushed
    back on the worklist; a zero-scale contribution is dropped, not stored;
  \<^item> any other term is terminal and merged into the output: scales are combined if the
    term is already present, and the entry is dropped if the combined scale is zero;
  \<^item> more than \<open>SUMMANDS_SIZE\<close> terminal summands abort to the trivial form, and so does an
    invalid constant or scale at the end; otherwise the form is built by the header's
    \<open>MemPointerDecomposedForm_make\<close>.

  The graph is a finite map from node addresses to nodes; an address it does not hold is
  an opaque node. \<open>is_safe_to_decompose_op\<close> is a parameter. The loop of
  \<open>parse_decomposed_form\<close> takes fuel, one unit for each summand popped, and returns \<open>None\<close>
  when the fuel runs out before the worklist is empty; beside its result it returns the
  nodes it popped, in order.
\<close>

datatype Node =
    Literal int
  | Add nat nat
  | Subtract nat nat
  | ScalarMultiply nat int
  | LeftShift nat nat
  | WideningConvert nat
  | Opaque

type_synonym Graph = "nat \<rightharpoonup> Node"

definition node_at :: "Graph \<Rightarrow> nat \<Rightarrow> Node" where
  "node_at g v = (case g v of None \<Rightarrow> Opaque | Some n \<Rightarrow> n)"


record Parser =
  p_con :: NoOverflowInt
  p_worklist :: "MemPointerSummand list"
  p_summands :: "MemPointerSummand list"

datatype 'a outcome = Fallback | Continue 'a

text \<open>Pushing a sub-summand on the worklist; a zero scale is dropped.\<close>

definition push_summand :: "nat \<Rightarrow> NoOverflowInt \<Rightarrow> Parser \<Rightarrow> Parser" where
  "push_summand v s st =
     (if is_zero s then st
      else st\<lparr>p_worklist := \<lparr>variable = Some v, scale = s\<rparr> # p_worklist st\<rparr>)"

text \<open>Merging a terminal summand into the output.\<close>

fun merge_summand ::
  "nat \<Rightarrow> NoOverflowInt \<Rightarrow> MemPointerSummand list \<Rightarrow> MemPointerSummand list" where
  "merge_summand v s [] = [\<lparr>variable = Some v, scale = s\<rparr>]"
| "merge_summand v s (t # ts) =
     (if variable t = Some v
      then (let c = NoOverflowInt_add (scale t) s
            in if is_zero c then ts else \<lparr>variable = Some v, scale = c\<rparr> # ts)
      else t # merge_summand v s ts)"

text \<open>
  A terminal term: merged into the output, unless the output then exceeds the capacity.
\<close>

definition merge_terminal :: "nat \<Rightarrow> NoOverflowInt \<Rightarrow> Parser \<Rightarrow> Parser outcome" where
  "merge_terminal v s st =
     (let out = merge_summand v s (p_summands st)
      in if SUMMANDS_SIZE < length out then Fallback else Continue (st\<lparr>p_summands := out\<rparr>))"

definition parse_sub_expression ::
  "Graph \<Rightarrow> (Node \<Rightarrow> NoOverflowInt \<Rightarrow> bool) \<Rightarrow> MemPointerSummand \<Rightarrow> Parser \<Rightarrow> Parser outcome" where
  "parse_sub_expression g is_safe_to_decompose_op summand st =
     (case variable summand of
        None \<Rightarrow> Continue st
      | Some v \<Rightarrow>
          (let s = scale summand; n = node_at g v in
           case n of
             Literal k \<Rightarrow>
               (let c = NoOverflowInt_add (p_con st) (NoOverflowInt_mul s (NoOverflowInt_of k))
                in if is_NaN c then Fallback else Continue (st\<lparr>p_con := c\<rparr>))
           | Opaque \<Rightarrow> merge_terminal v s st
           | _ \<Rightarrow>
               if \<not> is_safe_to_decompose_op n s then merge_terminal v s st
               else (case n of
                       Add a b \<Rightarrow> Continue (push_summand b s (push_summand a s st))
                     | Subtract a b \<Rightarrow>
                         Continue (push_summand b (NoOverflowInt_sub (NoOverflowInt_of 0) s)
                                     (push_summand a s st))
                     | ScalarMultiply a k \<Rightarrow>
                         Continue (push_summand a (NoOverflowInt_mul s (NoOverflowInt_of k)) st)
                     | LeftShift a c \<Rightarrow>
                         Continue (push_summand a (NoOverflowInt_mul s (NoOverflowInt_of (2 ^ c))) st)
                     | WideningConvert a \<Rightarrow> Continue (push_summand a s st)
                     | _ \<Rightarrow> Continue st)))"

fun parse_loop ::
  "Graph \<Rightarrow> (Node \<Rightarrow> NoOverflowInt \<Rightarrow> bool) \<Rightarrow> nat \<Rightarrow> Parser \<Rightarrow> nat list
     \<Rightarrow> (Parser outcome \<times> nat list) option" where
  "parse_loop g safe fuel st visited =
     (case p_worklist st of
        [] \<Rightarrow> Some (Continue st, visited)
      | summand # wl \<Rightarrow>
          (case fuel of
             0 \<Rightarrow> None
           | Suc fuel' \<Rightarrow>
               (let visited' = visited @ (case variable summand of None \<Rightarrow> [] | Some v \<Rightarrow> [v])
                in case parse_sub_expression g safe summand (st\<lparr>p_worklist := wl\<rparr>) of
                     Fallback \<Rightarrow> Some (Fallback, visited')
                   | Continue st' \<Rightarrow> parse_loop g safe fuel' st' visited')))"

definition parse_decomposed_form ::
  "Graph \<Rightarrow> (Node \<Rightarrow> NoOverflowInt \<Rightarrow> bool) \<Rightarrow> nat \<Rightarrow> nat
     \<Rightarrow> ((error + MemPointerDecomposedForm) \<times> nat list) option" where
  "parse_decomposed_form g safe fuel ptr =
     (case parse_loop g safe fuel
             \<lparr>p_con = NoOverflowInt_of 0,
              p_worklist = [\<lparr>variable = Some ptr, scale = NoOverflowInt_of 1\<rparr>],
              p_summands = []\<rparr> [] of
        None \<Rightarrow> None
      | Some (Fallback, visited) \<Rightarrow> Some (MemPointerDecomposedForm_trivial (Some ptr), visited)
      | Some (Continue st, visited) \<Rightarrow>
          Some (if is_NaN (p_con st) \<or> list_ex (\<lambda>s. is_NaN (scale s)) (p_summands st)
                then MemPointerDecomposedForm_trivial (Some ptr)
                else MemPointerDecomposedForm_make (Some ptr) (p_summands st) (p_con st),
                visited))"





text \<open>
  The invariant of the loop: the constant accumulator is valid, the output is within the
  capacity and every output summand has a variable.
\<close>

definition parser_invariant :: "Parser \<Rightarrow> bool" where
  "parser_invariant st =
     (\<not> is_NaN (p_con st) \<and> length (p_summands st) \<le> SUMMANDS_SIZE \<and>
      list_all (\<lambda>s. variable s \<noteq> None) (p_summands st))"

section \<open>Properties\<close>

subsection \<open>Auxiliary facts\<close>

lemma sint_max_distance: "sint max_distance = 2 ^ 30"
  by (simp add: max_distance_def)

lemma sint_neg_max_distance: "sint (- max_distance) = - (2 ^ 30)"
  by (simp add: max_distance_def)

lemma MemPointerAliasing_ctor_abs:
  "MemPointerAliasing_ctor a d =
     (if \<bar>sint d\<bar> < 2 ^ 30 then Inr \<lparr>aliasing = a, distance = d\<rparr>
      else Inl (AssertionFailure ''safe distance''))"
  by (auto simp add: MemPointerAliasing_ctor_def sint_max_distance sint_neg_max_distance)

lemma make_unknown_eq: "make_unknown = Inr \<lparr>aliasing = Unknown, distance = 0\<rparr>"
  by (simp add: make_unknown_def MemPointerAliasing_ctor_abs)

lemma NoOverflowInt_of_0: "NoOverflowInt_of 0 = Value 0"
  by (simp add: NoOverflowInt_of_def)

lemma NoOverflowInt_of_1: "NoOverflowInt_of 1 = Value 1"
  by (simp add: NoOverflowInt_of_def)

lemma empty_summands_unfold:
  "empty_summands = MemPointerSummand_empty # replicate 9 MemPointerSummand_empty"
  by (simp add: empty_summands_def SUMMANDS_SIZE_def eval_nat_numeral)

lemma MemPointerDecomposedForm_trivial_Some:
  "MemPointerDecomposedForm_trivial (Some p) =
     Inr \<lparr>pointer = Some p,
          summands = \<lparr>variable = Some p, scale = Value 1\<rparr> # replicate 9 MemPointerSummand_empty,
          con = Value 0\<rparr>"
  by (simp add: MemPointerDecomposedForm_trivial_def MemPointerSummand_ctor_def
      NoOverflowInt_of_0 NoOverflowInt_of_1 is_zero_def empty_summands_unfold)

lemma MemPointerDecomposedForm_ctor_con:
  "MemPointerDecomposedForm_ctor p ss c = Inr f \<Longrightarrow> con f = c \<and> \<not> is_NaN c \<and> pointer f = p"
  by (auto simp add: MemPointerDecomposedForm_ctor_def split: if_splits sum.splits)

lemma MemPointerDecomposedForm_trivial_con:
  "MemPointerDecomposedForm_trivial p = Inr f \<Longrightarrow> con f = Value 0"
  by (cases p) (auto simp add: MemPointerDecomposedForm_trivial_Some,
      simp add: MemPointerDecomposedForm_trivial_def)

lemma length_copy_summands:
  "copy_summands ss i arr = Inr arr' \<Longrightarrow> length arr' = length arr"
  by (induction ss i arr rule: copy_summands.induct) (auto split: if_splits)

text \<open>Every form that a constructor returns has \<open>SUMMANDS_SIZE\<close> summand slots.\<close>

lemma MemPointerDecomposedForm_make_length:
  "MemPointerDecomposedForm_make p ss c = Inr f \<Longrightarrow> length (summands f) = SUMMANDS_SIZE"
proof -
  assume m: "MemPointerDecomposedForm_make p ss c = Inr f"
  have e: "length empty_summands = SUMMANDS_SIZE" by (simp add: empty_summands_def)
  show ?thesis
  proof (cases "length ss \<le> SUMMANDS_SIZE")
    case True
    with m obtain arr where "copy_summands ss 0 empty_summands = Inr arr" "summands f = arr"
      by (auto simp add: MemPointerDecomposedForm_make_def MemPointerDecomposedForm_ctor_def
          split: if_splits sum.splits)
    with e show ?thesis using length_copy_summands [of ss 0 empty_summands arr] by simp
  next
    case False
    with m e show ?thesis
      by (auto simp add: MemPointerDecomposedForm_make_def MemPointerDecomposedForm_trivial_def
          split: if_splits sum.splits)
  qed
qed

subsection \<open>Summands\<close>



text \<open>
  Claim C10. For every non-null variable the constructor accepts the scale NaN: the
  assertion \<^verbatim>\<open>!_scale.is_zero()\<close> passes because the zero-check of NaN is false. The
  summand so constructed is not equal to itself under \<^verbatim>\<open>operator==\<close>, so summand equality
  is not reflexive.
\<close>

theorem summand_eq_not_reflexive:
  "\<exists>s. MemPointerSummand_ctor (Some v) make_NaN = Inr s \<and> variable s = Some v \<and>
       is_NaN (scale s) \<and> \<not> is_zero (scale s) \<and> \<not> MemPointerSummand_eq s s"
  by (simp add: MemPointerSummand_ctor_def make_NaN_def is_zero_def is_NaN_def
      MemPointerSummand_eq_def NoOverflowInt_eq_def)

subsection \<open>Verdicts\<close>

text \<open>
  Claim C5. Every verdict that the constructor of \<^verbatim>\<open>MemPointerAliasing\<close> returns has a
  distance strictly between \<open>-2^30\<close> and \<open>2^30\<close>: the assertion "safe distance" enforces
  it. For a distance that passes the comparator's range check (strictly between \<open>-2^30\<close>
  and \<open>2^30\<close>) \<open>make_always\<close> returns the verdict and the assertion does not fire; for any
  other distance it fires.
\<close>

theorem verdict_distance_bound:
  "(MemPointerAliasing_ctor a d = Inr v \<longrightarrow>
      aliasing v = a \<and> distance v = d \<and> - (2 ^ 30) < sint (distance v) \<and> sint (distance v) < 2 ^ 30) \<and>
   (- (2 ^ 30) < sint d \<and> sint d < 2 ^ 30 \<longrightarrow>
      make_always d = Inr \<lparr>aliasing = Always, distance = d\<rparr>) \<and>
   (\<not> (- (2 ^ 30) < sint d \<and> sint d < 2 ^ 30) \<longrightarrow>
      make_always d = Inl (AssertionFailure ''safe distance''))"
  by (auto simp add: make_always_def MemPointerAliasing_ctor_def
      sint_max_distance sint_neg_max_distance split: if_splits)

theorem verdict_distance_bound_witness:
  "make_always 4 = Inr \<lparr>aliasing = Always, distance = 4\<rparr> \<and>
   make_always (push_bit 30 1) = Inl (AssertionFailure ''safe distance'') \<and>
   MemPointerAliasing_ctor Always (- 8) = Inr \<lparr>aliasing = Always, distance = - 8\<rparr> \<and>
   sint (- 8 :: jint) = - 8"
  using verdict_distance_bound [of Always "- 8" "\<lparr>aliasing = Always, distance = - 8\<rparr>"]
    verdict_distance_bound [of Always 4 "\<lparr>aliasing = Always, distance = 4\<rparr>"]
    verdict_distance_bound [of Always "push_bit 30 1" "\<lparr>aliasing = Always, distance = 4\<rparr>"]
  by (simp add: MemPointerAliasing_ctor_abs)

subsection \<open>The facade\<close>

text \<open>
  Claim C9. Constructing a \<^verbatim>\<open>MemPointer\<close> succeeds only for a memory access that is a
  Store: for any other access (a Load, say) \<open>init_decomposed_form\<close> fails its assertion
  "only stores are supported" before the parser runs, whatever the parser is.
\<close>

theorem store_only_precondition:
  "(MemPointer_ctor parser m = Inr mp \<longrightarrow> is_Store m) \<and>
   (\<not> is_Store m \<longrightarrow>
      init_decomposed_form parser m = Inl (AssertionFailure ''only stores are supported'') \<and>
      MemPointer_ctor parser m = Inl (AssertionFailure ''only stores are supported''))"
  by (auto simp add: MemPointer_ctor_def init_decomposed_form_def split: if_splits sum.splits)

theorem store_only_precondition_witness:
  "\<not> is_Store \<lparr>is_Store = False, memory_size = 4, address = Some 1\<rparr> \<and>
   MemPointer_ctor (\<lambda>m. MemPointerDecomposedForm_trivial (address m))
      \<lparr>is_Store = False, memory_size = 4, address = Some 1\<rparr>
     = Inl (AssertionFailure ''only stores are supported'')"
  using store_only_precondition [of "\<lambda>m. MemPointerDecomposedForm_trivial (address m)"
      "\<lparr>is_Store = False, memory_size = 4, address = Some 1\<rparr>"]
  by simp

subsection \<open>Auxiliary facts on the comparator\<close>

lemma sint_eq_uint_32:
  "uint (a :: 32 word) < 2 ^ 31 \<Longrightarrow> sint a = uint a"
proof -
  assume "uint a < 2 ^ 31"
  then have "signed_take_bit 31 (uint a) = uint a"
    by (intro signed_take_bit_int_eq_self) (use uint_ge_0 [of a] in linarith)+
  then show ?thesis by (simp add: sint_uint)
qed

lemma sint_diff_small_idx:
  "uint (a :: 32 word) < 2 ^ 31 \<Longrightarrow> uint b < 2 ^ 31 \<Longrightarrow> sint (a - b) = uint a - uint b"
proof -
  assume a: "uint a < 2 ^ 31" and b: "uint b < 2 ^ 31"
  have "- (2 ^ 31) \<le> uint a - uint b" "uint a - uint b < 2 ^ 31"
    using a b uint_ge_0 [of a] uint_ge_0 [of b] by linarith+
  then show ?thesis
    using a b by (simp add: sint_word_diff sint_eq_uint_32 signed_take_bit_int_eq_self)
qed

lemma sint_diff_in_range:
  "- (2 ^ 31) \<le> sint (b :: 32 word) - sint (a :: 32 word) \<Longrightarrow> sint b - sint a < 2 ^ 31
   \<Longrightarrow> sint (b - a) = sint b - sint a"
  by (simp add: sint_word_diff signed_take_bit_int_eq_self)

lemma NoOverflowInt_sub_Value:
  "NoOverflowInt_sub (Value b) (Value a) =
     (if - (2 ^ 31) \<le> sint b - sint a \<and> sint b - sint a < 2 ^ 31 then Value (b - a) else NaN)"
  by (simp add: NoOverflowInt_sub_def NoOverflowInt_of_def)

lemma cmp_for_sort_le_iff:
  "in_idx_range idx s \<Longrightarrow> in_idx_range idx t \<Longrightarrow>
   cmp_for_sort idx s t \<le> 0 \<longleftrightarrow> summand_sort_key idx s \<le> summand_sort_key idx t"
  using uint_lt2p [where 'a = 32]
  by (auto simp add: cmp_for_sort_def summand_sort_key_def in_idx_range_def sint_diff_small_idx split: option.splits)

lemma length_insert_summand: "length (insert_summand idx s ts) = Suc (length ts)"
  by (induction ts) auto

lemma length_sort_summands: "length (sort_summands idx xs) = length xs"
  by (induction xs) (auto simp add: length_insert_summand)

lemma mset_insert_summand: "mset (insert_summand idx s ts) = add_mset s (mset ts)"
  by (induction ts) auto

lemma mset_sort_summands: "mset (sort_summands idx xs) = mset xs"
  by (induction xs) (auto simp add: mset_insert_summand)

lemma set_insert_summand: "set (insert_summand idx s ts) = insert s (set ts)"
  by (induction ts) auto

lemma set_sort_summands: "set (sort_summands idx xs) = set xs"
  by (induction xs) (auto simp add: set_insert_summand)

lemma sorted_insert_summand:
  assumes "in_idx_range idx s" "list_all (in_idx_range idx) ts"
    and "sorted_wrt (\<lambda>a b. summand_sort_key idx a \<le> summand_sort_key idx b) ts"
  shows "sorted_wrt (\<lambda>a b. summand_sort_key idx a \<le> summand_sort_key idx b) (insert_summand idx s ts)"
  using assms
proof (induction ts)
  case Nil
  then show ?case by simp
next
  case (Cons t ts)
  show ?case
  proof (cases "cmp_for_sort idx s t \<le> 0")
    case True
    with Cons.prems have "summand_sort_key idx s \<le> summand_sort_key idx t"
      by (simp add: cmp_for_sort_le_iff)
    with Cons.prems True show ?thesis by fastforce
  next
    case False
    with Cons.prems have "summand_sort_key idx t \<le> summand_sort_key idx s"
      by (simp add: cmp_for_sort_le_iff)
    with Cons False show ?thesis by (auto simp add: set_insert_summand)
  qed
qed

lemma sorted_sort_summands:
  "list_all (in_idx_range idx) xs \<Longrightarrow>
   sorted_wrt (\<lambda>a b. summand_sort_key idx a \<le> summand_sort_key idx b) (sort_summands idx xs)"
proof (induction xs)
  case Nil
  then show ?case by simp
next
  case (Cons x xs)
  then have "list_all (in_idx_range idx) (sort_summands idx xs)"
    by (simp add: list_all_iff set_sort_summands)
  with Cons show ?case by (simp add: sorted_insert_summand)
qed

lemma summands_differ_iff:
  assumes "length s1 = SUMMANDS_SIZE" "length s2 = SUMMANDS_SIZE"
  shows "summands_differ s1 s2 \<longleftrightarrow> \<not> list_all2 MemPointerSummand_eq s1 s2"
  using assms
  by (auto simp add: summands_differ_def list_ex_iff list_all2_conv_all_nth MemPointerSummand_neq_def)

lemma NoOverflowInt_sub_NaN:
  "NoOverflowInt_sub NaN b = NaN" "NoOverflowInt_sub a NaN = NaN"
  by (simp_all add: NoOverflowInt_sub_def split: NoOverflowInt.splits)

text \<open>The comparator in closed form, for forms whose summand arrays have their size.\<close>

lemma get_aliasing_with_closed_form:
  assumes "length (summands A) = SUMMANDS_SIZE" "length (summands B) = SUMMANDS_SIZE"
  shows "get_aliasing_with idx A B =
     Inr (if list_all2 MemPointerSummand_eq
              (sort_summands idx (summands A)) (sort_summands idx (summands B))
          then (case con A of
                  NaN \<Rightarrow> \<lparr>aliasing = Unknown, distance = 0\<rparr>
                | Value a \<Rightarrow>
                    (case con B of
                       NaN \<Rightarrow> \<lparr>aliasing = Unknown, distance = 0\<rparr>
                     | Value b \<Rightarrow>
                         if \<bar>sint b - sint a\<bar> < 2 ^ 30
                         then \<lparr>aliasing = Always, distance = b - a\<rparr>
                         else \<lparr>aliasing = Unknown, distance = 0\<rparr>))
          else \<lparr>aliasing = Unknown, distance = 0\<rparr>)"
proof -
  have d: "summands_differ (sort_summands idx (summands A)) (sort_summands idx (summands B))
      \<longleftrightarrow> \<not> list_all2 MemPointerSummand_eq
              (sort_summands idx (summands A)) (sort_summands idx (summands B))"
    using assms by (simp add: summands_differ_iff length_sort_summands)
  have s: "(case NoOverflowInt_sub (Value b) (Value a) of
              NaN \<Rightarrow> make_unknown
            | Value d \<Rightarrow> if \<bar>sint d\<bar> < 2 ^ 30 then make_always d else make_unknown)
           = Inr (if \<bar>sint b - sint a\<bar> < 2 ^ 30
                         then \<lparr>aliasing = Always, distance = b - a\<rparr>
                         else \<lparr>aliasing = Unknown, distance = 0\<rparr>)" for a b :: jint
  proof (cases "- (2 ^ 31) \<le> sint b - sint a \<and> sint b - sint a < 2 ^ 31")
    case True
    then have "sint (b - a) = sint b - sint a" by (simp add: sint_diff_in_range)
    with True show ?thesis
      by (simp add: NoOverflowInt_sub_Value make_unknown_eq make_always_def
          MemPointerAliasing_ctor_abs)
  next
    case False
    then have "\<not> \<bar>sint b - sint a\<bar> < 2 ^ 30" by (simp, linarith)
    moreover from False have "NoOverflowInt_sub (Value b) (Value a) = NaN"
      by (simp only: NoOverflowInt_sub_Value if_False)
    ultimately show ?thesis
      by (simp add: make_unknown_eq)
  qed
  show ?thesis
    unfolding get_aliasing_with_def d
    by (cases "con A"; cases "con B")
      (simp_all add: s make_unknown_eq NoOverflowInt_sub_NaN)
qed

lemma get_aliasing_with_total: "\<exists>v. get_aliasing_with idx A B = Inr v"
proof -
  have s: "\<exists>v. (case x of
              NaN \<Rightarrow> make_unknown
            | Value d \<Rightarrow> if \<bar>sint d\<bar> < 2 ^ 30 then make_always d else make_unknown) = Inr v" for x
    by (cases x) (simp_all add: make_unknown_eq make_always_def MemPointerAliasing_ctor_abs)
  show ?thesis
    unfolding get_aliasing_with_def using s by (simp add: make_unknown_eq)
qed

subsection \<open>Auxiliary facts on safe decompositions\<close>

lemma safe_decomposition_iff:
  "safe_decomposition aes m m' \<longleftrightarrow>
     m = m' \<or> (\<exists>a x. aes = Some a \<and> m = m' + x * a * 2 ^ 32)"
proof (cases aes)
  case None
  then show ?thesis by (simp add: safe_decomposition_def)
next
  case (Some a)
  have "(a * 2 ^ 32) dvd (m - m') \<longleftrightarrow> (\<exists>x. m = m' + x * a * 2 ^ 32)"
  proof
    assume "(a * 2 ^ 32) dvd (m - m')"
    then obtain k where "m - m' = a * 2 ^ 32 * k" by (auto simp add: dvd_def)
    then have "m = m' + k * a * 2 ^ 32" by (simp add: algebra_simps)
    then show "\<exists>x. m = m' + x * a * 2 ^ 32" by blast
  next
    assume "\<exists>x. m = m' + x * a * 2 ^ 32"
    then obtain x where "m = m' + x * a * 2 ^ 32" by blast
    then have "m - m' = a * 2 ^ 32 * x" by (simp add: algebra_simps)
    then show "(a * 2 ^ 32) dvd (m - m')" by (simp only: dvd_triv_left)
  qed
  with Some show ?thesis by (simp add: safe_decomposition_def)
qed

lemma safe_decompositions_dvd:
  "safe_decompositions (Some a) (m # ms) \<Longrightarrow> (a * 2 ^ 32) dvd (m - last (m # ms))"
proof (induction ms arbitrary: m)
  case Nil
  then show ?case by simp
next
  case (Cons m' ms)
  then have 1: "(a * 2 ^ 32) dvd (m - m')" and 2: "(a * 2 ^ 32) dvd (m' - last (m' # ms))"
    by (auto simp add: safe_decomposition_def)
  have "m - last (m' # ms) = (m - m') + (m' - last (m' # ms))" by simp
  with 1 2 have "(a * 2 ^ 32) dvd (m - last (m' # ms))" by (simp only: dvd_add)
  then show ?case by simp
qed

lemma safe_decompositions_eq:
  "safe_decompositions None (m # ms) \<Longrightarrow> m = last (m # ms)"
  by (induction ms arbitrary: m) (auto simp add: safe_decomposition_def)

lemma decomposed_by_Some:
  "decomposed_by (Some a) ms p mp \<Longrightarrow> (a * 2 ^ 32) dvd (p - mp)"
  using safe_decompositions_dvd [of a "hd ms" "tl ms"]
  by (cases ms) (auto simp add: decomposed_by_def)

lemma decomposed_by_None:
  "decomposed_by None ms p mp \<Longrightarrow> p = mp"
  using safe_decompositions_eq [of "hd ms" "tl ms"]
  by (cases ms) (auto simp add: decomposed_by_def)

text \<open>The MemPointer Lemma on the values.\<close>

lemma MemPointer_Lemma_values:
  assumes d1: "decomposed_by (array_element_size_in_bytes obj) ms1 p1 m1"
    and d2: "decomposed_by (array_element_size_in_bytes obj) ms2 p2 m2"
    and S1: "in_bounds obj p1" "in_bounds obj p2" "valid_object obj"
    and S2: "\<bar>m1 - m2\<bar> < 2 ^ 31"
  shows "p1 - p2 = m1 - m2"
proof (cases "array_element_size_in_bytes obj")
  case None
  with d1 d2 have "p1 = m1" "p2 = m2" by (auto dest: decomposed_by_None)
  then show ?thesis by simp
next
  case (Some a)
  with S1 have a: "0 < a" and sz: "size_in_bytes obj \<le> a * 2 ^ 31"
    by (simp_all add: valid_object_def)
  from d1 d2 Some have "(a * 2 ^ 32) dvd (p1 - m1)" "(a * 2 ^ 32) dvd (p2 - m2)"
    using decomposed_by_Some [of a ms1 p1 m1] decomposed_by_Some [of a ms2 p2 m2]
    by simp_all
  then have "(a * 2 ^ 32) dvd ((p1 - m1) - (p2 - m2))" by (rule dvd_diff)
  then obtain x where x: "(p1 - m1) - (p2 - m2) = a * 2 ^ 32 * x" by (auto simp add: dvd_def)
  have dist: "\<bar>p1 - p2\<bar> \<le> size_in_bytes obj"
    using S1 by (auto simp add: in_bounds_def)
  show ?thesis
  proof (cases "x = 0")
    case True
    with x show ?thesis by simp
  next
    case False
    then have "1 \<le> \<bar>x\<bar>" by simp
    with a have "a * 2 ^ 32 * 1 \<le> a * 2 ^ 32 * \<bar>x\<bar>"
      by (intro mult_left_mono) simp_all
    moreover have "\<bar>a * 2 ^ 32 * x\<bar> = a * 2 ^ 32 * \<bar>x\<bar>"
      using a by (simp add: abs_mult)
    ultimately have big: "a * 2 ^ 32 \<le> \<bar>(p1 - m1) - (p2 - m2)\<bar>"
      using x by simp
    have "\<bar>(p1 - m1) - (p2 - m2)\<bar> \<le> \<bar>p1 - p2\<bar> + \<bar>m1 - m2\<bar>" by linarith
    with big dist sz S2 have "a * 2 ^ 32 < a * 2 ^ 31 + 2 ^ 31" by linarith
    moreover have "a * 2 ^ 31 + 2 ^ 31 \<le> a * 2 ^ 32" using a by simp
    ultimately show ?thesis by linarith
  qed
qed

lemma sint_word_of_int_32:
  "- (2 ^ 31) \<le> v \<Longrightarrow> v < 2 ^ 31 \<Longrightarrow> sint (word_of_int v :: 32 word) = v"
  by (simp add: sint_sbintrunc' signed_take_bit_int_eq_self)

lemma summand_value_eq:
  "MemPointerSummand_eq s t \<Longrightarrow> summand_value env s = summand_value env t"
  by (auto simp add: MemPointerSummand_eq_def summand_value_def NoOverflowInt_eq_def
      split: if_splits option.splits NoOverflowInt.splits)

lemma sum_summands_eq:
  "list_all2 MemPointerSummand_eq xs ys \<Longrightarrow> sum_summands env xs = sum_summands env ys"
  by (induction xs ys rule: list_all2_induct)
    (auto simp add: summand_value_eq split: option.splits)

lemma sum_summands_insert:
  "sum_summands env (insert_summand idx s ts) = sum_summands env (s # ts)"
  by (induction ts) (auto split: option.splits)

lemma sum_summands_sort:
  "sum_summands env (sort_summands idx xs) = sum_summands env xs"
  by (induction xs) (auto simp add: sum_summands_insert split: option.splits)

lemma form_value_diff:
  assumes "list_all2 MemPointerSummand_eq
             (sort_summands idx (summands A)) (sort_summands idx (summands B))"
    and "form_value env A = Some m1" "form_value env B = Some m2"
    and "con A = Value c1" "con B = Value c2"
  shows "m1 - m2 = sint c1 - sint c2"
proof -
  from assms(1) have "sum_summands env (summands A) = sum_summands env (summands B)"
    using sum_summands_eq [of "sort_summands idx (summands A)" "sort_summands idx (summands B)" env]
    by (simp add: sum_summands_sort)
  with assms(2-) show ?thesis
    by (auto simp add: form_value_def split: option.splits)
qed

lemma insert_summand_empty_replicate:
  "insert_summand idx MemPointerSummand_empty (replicate n MemPointerSummand_empty) =
     replicate (Suc n) MemPointerSummand_empty"
  by (cases n) (simp_all add: cmp_for_sort_def MemPointerSummand_empty_def)

lemma sort_summands_replicate_empty:
  "sort_summands idx (replicate n MemPointerSummand_empty) = replicate n MemPointerSummand_empty"
  by (induction n) (simp_all add: insert_summand_empty_replicate)

lemma insert_summand_variable_replicate:
  "variable s = Some v \<Longrightarrow>
   insert_summand idx s (replicate n MemPointerSummand_empty) =
     s # replicate n MemPointerSummand_empty"
  by (cases n) (simp_all add: cmp_for_sort_def MemPointerSummand_empty_def)

lemma sort_summands_trivial:
  "sort_summands idx (\<lparr>variable = Some p, scale = k\<rparr> # replicate n MemPointerSummand_empty) =
     \<lparr>variable = Some p, scale = k\<rparr> # replicate n MemPointerSummand_empty"
  by (simp add: sort_summands_replicate_empty insert_summand_variable_replicate)

lemma list_all2_replicate_empty:
  "list_all2 MemPointerSummand_eq (replicate n MemPointerSummand_empty)
     (replicate n MemPointerSummand_empty)"
  by (simp add: list_all2_conv_all_nth MemPointerSummand_eq_def MemPointerSummand_empty_def)

lemma get_aliasing_with_trivial:
  "get_aliasing_with idx
     \<lparr>pointer = Some p1,
      summands = \<lparr>variable = Some p1, scale = Value 1\<rparr> # replicate 9 MemPointerSummand_empty,
      con = Value 0\<rparr>
     \<lparr>pointer = Some p2,
      summands = \<lparr>variable = Some p2, scale = Value 1\<rparr> # replicate 9 MemPointerSummand_empty,
      con = Value 0\<rparr> =
   Inr (if p1 = p2 then \<lparr>aliasing = Always, distance = 0\<rparr>
        else \<lparr>aliasing = Unknown, distance = 0\<rparr>)"
  by (subst get_aliasing_with_closed_form)
    (simp_all add: SUMMANDS_SIZE_def sort_summands_trivial list_all2_replicate_empty
      MemPointerSummand_eq_def NoOverflowInt_eq_def del: sort_summands.simps)

lemma is_always_at_distance_iff:
  "is_always_at_distance v d \<longleftrightarrow> v = \<lparr>aliasing = Always, distance = d\<rparr>"
  by (cases v) (auto simp add: is_always_at_distance_def)

lemma diff_eq_iff_sint:
  assumes "\<bar>sint (b :: jint) - sint (a :: jint)\<bar> < 2 ^ 30"
  shows "b - a = d \<longleftrightarrow> sint b - sint a = sint d"
proof -
  from assms have "- (2 ^ 31) \<le> sint b - sint a" "sint b - sint a < 2 ^ 31"
    by simp_all
  then have "sint (b - a) = sint b - sint a" by (rule sint_diff_in_range)
  then show ?thesis by (metis word_eq_iff_signed [where ?'a = int])
qed

lemma MemPointerSummand_eq_iff:
  "MemPointerSummand_eq s t \<longleftrightarrow>
     (variable s = None \<and> variable t = None) \<or>
     (variable s = variable t \<and> (\<exists>k. scale s = Value k \<and> scale t = Value k))"
  by (auto simp add: MemPointerSummand_eq_def NoOverflowInt_eq_def split: NoOverflowInt.splits)

lemma list_all2_eq_filter:
  "list_all2 MemPointerSummand_eq xs ys \<Longrightarrow>
   filter (\<lambda>s. variable s \<noteq> None) xs = filter (\<lambda>s. variable s \<noteq> None) ys"
proof (induction xs ys rule: list_all2_induct)
  case Nil
  then show ?case by simp
next
  case (Cons x xs y ys)
  from Cons.hyps(1) have "(variable x = None \<and> variable y = None) \<or> (variable x \<noteq> None \<and> x = y)"
    by (cases x; cases y) (auto simp add: MemPointerSummand_eq_iff)
  with Cons.IH show ?case by auto
qed

lemma summand_sets_of_equal_sorted:
  assumes "list_all2 MemPointerSummand_eq (sort_summands idx xs) (sort_summands idx ys)"
  shows "filter_mset (\<lambda>s. variable s \<noteq> None) (mset xs) =
         filter_mset (\<lambda>s. variable s \<noteq> None) (mset ys)"
proof -
  have "mset (filter (\<lambda>s. variable s \<noteq> None) (sort_summands idx xs)) =
        mset (filter (\<lambda>s. variable s \<noteq> None) (sort_summands idx ys))"
    using list_all2_eq_filter [OF assms] by simp
  then show ?thesis by (simp only: mset_filter mset_sort_summands)
qed

lemma list_all2_eq_nth:
  "list_all2 MemPointerSummand_eq xs ys \<Longrightarrow> i < length xs \<Longrightarrow>
   variable (xs ! i) = variable (ys ! i) \<and>
   (variable (xs ! i) \<noteq> None \<longrightarrow> scale (xs ! i) = scale (ys ! i))"
  by (auto simp add: list_all2_conv_all_nth MemPointerSummand_eq_iff)

subsection \<open>Auxiliary facts on the parser\<close>







lemma p_worklist_push_frame:
  "p_con (push_summand a s st) = p_con st" "p_summands (push_summand a s st) = p_summands st"
  by (simp_all add: push_summand_def)



lemma copy_summands_succeeds:
  "list_all (\<lambda>s. variable s \<noteq> None \<and> \<not> is_NaN (scale s)) ss \<Longrightarrow>
   \<exists>arr'. copy_summands ss i arr = Inr arr'"
  by (induction ss i arr rule: copy_summands.induct) auto

lemma MemPointerDecomposedForm_make_succeeds:
  assumes "\<not> is_NaN c" "length ss \<le> SUMMANDS_SIZE"
    and "list_all (\<lambda>s. variable s \<noteq> None \<and> \<not> is_NaN (scale s)) ss"
  shows "\<exists>f. MemPointerDecomposedForm_make p ss c = Inr f \<and> con f = c \<and> pointer f = p"
proof -
  from assms(3) obtain arr where "copy_summands ss 0 empty_summands = Inr arr"
    using copy_summands_succeeds by blast
  with assms(1,2) show ?thesis
    by (simp add: MemPointerDecomposedForm_make_def MemPointerDecomposedForm_ctor_def)
qed

lemma merge_summand_variables:
  "list_all (\<lambda>s. variable s \<noteq> None) out \<Longrightarrow>
   list_all (\<lambda>s. variable s \<noteq> None) (merge_summand v s out)"
  by (induction out) (auto simp add: Let_def)

lemma p_summands_push: "p_summands (push_summand a s st) = p_summands st"
  by (simp add: push_summand_def)

lemma p_con_push: "p_con (push_summand a s st) = p_con st"
  by (simp add: push_summand_def)

lemma merge_terminal_invariant:
  "parser_invariant st \<Longrightarrow> merge_terminal v s st = Continue st' \<Longrightarrow> parser_invariant st'"
  using merge_summand_variables [of "p_summands st" v s]
  by (auto simp add: merge_terminal_def parser_invariant_def Let_def split: if_splits)

lemma parse_sub_expression_invariant:
  assumes "parser_invariant st" "parse_sub_expression g safe s st = Continue st'"
  shows "parser_invariant st'"
proof (cases "variable s")
  case None
  with assms show ?thesis by (simp add: parse_sub_expression_def)
next
  case (Some v)
  have push: "parser_invariant (push_summand a k x)" if "parser_invariant x" for a k x
    using that by (simp add: parser_invariant_def p_summands_push p_con_push)
  show ?thesis
  proof (cases "node_at g v")
    case (Literal k)
    with assms Some show ?thesis
      by (auto simp add: parse_sub_expression_def Let_def parser_invariant_def split: if_splits)
  next
    case (Add a b)
    with assms Some push merge_terminal_invariant [OF assms(1)] show ?thesis
      by (auto simp add: parse_sub_expression_def Let_def split: if_splits)
  next
    case (Subtract a b)
    with assms Some push merge_terminal_invariant [OF assms(1)] show ?thesis
      by (auto simp add: parse_sub_expression_def Let_def split: if_splits)
  next
    case (ScalarMultiply a k)
    with assms Some push merge_terminal_invariant [OF assms(1)] show ?thesis
      by (auto simp add: parse_sub_expression_def Let_def split: if_splits)
  next
    case (LeftShift a c)
    with assms Some push merge_terminal_invariant [OF assms(1)] show ?thesis
      by (auto simp add: parse_sub_expression_def Let_def split: if_splits)
  next
    case (WideningConvert a)
    with assms Some push merge_terminal_invariant [OF assms(1)] show ?thesis
      by (auto simp add: parse_sub_expression_def Let_def split: if_splits)
  next
    case Opaque
    with assms Some merge_terminal_invariant [OF assms(1)] show ?thesis
      by (auto simp add: parse_sub_expression_def Let_def split: if_splits)
  qed
qed

lemma parse_loop_invariant:
  "parser_invariant st \<Longrightarrow> parse_loop g safe fuel st visited = Some (Continue st', vis) \<Longrightarrow>
   parser_invariant st'"
proof (induction fuel arbitrary: st visited)
  case 0
  then show ?case by (cases "p_worklist st") auto
next
  case (Suc fuel)
  show ?case
  proof (cases "p_worklist st")
    case Nil
    with Suc.prems show ?thesis by simp
  next
    case (Cons s wl)
    have i: "parser_invariant (st\<lparr>p_worklist := wl\<rparr>)"
      using Suc.prems(1) by (simp add: parser_invariant_def)
    show ?thesis
    proof (cases "parse_sub_expression g safe s (st\<lparr>p_worklist := wl\<rparr>)")
      case Fallback
      with Cons Suc.prems(2) show ?thesis by (simp add: Let_def)
    next
      case (Continue st'')
      from parse_sub_expression_invariant [OF i Continue] have "parser_invariant st''" .
      moreover from Cons Continue Suc.prems(2) have
        "parse_loop g safe fuel st''
           (visited @ (case variable s of None \<Rightarrow> [] | Some v \<Rightarrow> [v])) = Some (Continue st', vis)"
        by (simp add: Let_def)
      ultimately show ?thesis by (rule Suc.IH)
    qed
  qed
qed

subsection \<open>Capacity fallback\<close>

text \<open>
  Claim C3. Given more than \<open>SUMMANDS_SIZE = 10\<close> summands, \<open>MemPointerDecomposedForm_make\<close>
  returns the trivial form of its (non-null) pointer: the pointer itself with scale 1 in
  the first slot, nine empty slots, and the constant 0. Comparing two forms so obtained
  gives Unknown unless the two pointers are the same node, in which case it gives
  \<open>Always(0)\<close>. (The comparison is made by the comparator \<open>get_aliasing_with\<close> as modelled
  from the spec.)
\<close>

theorem capacity_fallback:
  assumes "SUMMANDS_SIZE < length ss1" "SUMMANDS_SIZE < length ss2"
  shows "\<exists>f1 f2.
     MemPointerDecomposedForm_make (Some p1) ss1 c1 = Inr f1 \<and>
     MemPointerDecomposedForm_make (Some p2) ss2 c2 = Inr f2 \<and>
     f1 = \<lparr>pointer = Some p1,
           summands = \<lparr>variable = Some p1, scale = Value 1\<rparr> # replicate 9 MemPointerSummand_empty,
           con = Value 0\<rparr> \<and>
     f2 = \<lparr>pointer = Some p2,
           summands = \<lparr>variable = Some p2, scale = Value 1\<rparr> # replicate 9 MemPointerSummand_empty,
           con = Value 0\<rparr> \<and>
     get_aliasing_with idx f1 f2 =
       Inr (if p1 = p2 then \<lparr>aliasing = Always, distance = 0\<rparr>
            else \<lparr>aliasing = Unknown, distance = 0\<rparr>)"
  using assms
  by (simp add: MemPointerDecomposedForm_make_def MemPointerDecomposedForm_trivial_Some
      get_aliasing_with_trivial)

theorem capacity_fallback_witness:
  "SUMMANDS_SIZE < length (replicate 11 \<lparr>variable = Some 7, scale = Value 2\<rparr>) \<and>
   MemPointerDecomposedForm_make (Some 1) (replicate 11 \<lparr>variable = Some 7, scale = Value 2\<rparr>) (Value 8) =
     Inr \<lparr>pointer = Some 1,
          summands = \<lparr>variable = Some 1, scale = Value 1\<rparr> # replicate 9 MemPointerSummand_empty,
          con = Value 0\<rparr> \<and>
   get_aliasing_with of_nat
     \<lparr>pointer = Some 1,
      summands = \<lparr>variable = Some 1, scale = Value 1\<rparr> # replicate 9 MemPointerSummand_empty,
      con = Value 0\<rparr>
     \<lparr>pointer = Some 2,
      summands = \<lparr>variable = Some 2, scale = Value 1\<rparr> # replicate 9 MemPointerSummand_empty,
      con = Value 0\<rparr> = Inr \<lparr>aliasing = Unknown, distance = 0\<rparr>"
  using capacity_fallback [of "replicate 11 \<lparr>variable = Some 7, scale = Value 2\<rparr>"
      "replicate 11 \<lparr>variable = Some 7, scale = Value 2\<rparr>" 1 "Value 8" 2 "Value 8" of_nat]
  by (simp add: SUMMANDS_SIZE_def)


subsection \<open>The comparator\<close>

text \<open>
  Claim C2. For two forms \<open>A\<close> and \<open>B\<close> whose summand arrays have \<open>SUMMANDS_SIZE\<close> slots,
  \<open>get_aliasing_with\<close> compares the summands of each form after sorting them: the sorted
  sequence is a permutation of the form's summands and, for node indices below \<open>2^31\<close>,
  ascends by node index with the empty summands last. The two sorted sequences are
  pairwise equal when at every position both summands are empty, or both have the same
  variable and the same valid scale. If they are not, the verdict is Unknown: so it is
  when at some position the variables differ (which includes a differing number of
  summands), when at some position a summand with a variable has another scale than its
  opposite, and whenever the two forms do not have the same summands with a variable,
  whatever their order. If they are pairwise equal, the verdict is Unknown when a constant
  is NaN or when the integer difference \<open>B.con - A.con\<close> has absolute value \<open>2^30\<close> or more
  (which includes every difference that does not fit 32 bits), and \<open>Always(B.con - A.con)\<close>
  otherwise. No assertion fails on the way.
\<close>

theorem comparator_procedure:
  assumes "length (summands A) = SUMMANDS_SIZE" "length (summands B) = SUMMANDS_SIZE"
  shows "mset (sort_summands idx (summands A)) = mset (summands A) \<and>
     mset (sort_summands idx (summands B)) = mset (summands B) \<and>
     (list_all (in_idx_range idx) (summands A) \<longrightarrow>
        sorted_wrt (\<lambda>s t. summand_sort_key idx s \<le> summand_sort_key idx t)
          (sort_summands idx (summands A))) \<and>
     (list_all (in_idx_range idx) (summands B) \<longrightarrow>
        sorted_wrt (\<lambda>s t. summand_sort_key idx s \<le> summand_sort_key idx t)
          (sort_summands idx (summands B))) \<and>
     get_aliasing_with idx A B =
       Inr (if list_all2
                 (\<lambda>s t. (variable s = None \<and> variable t = None) \<or>
                        (variable s = variable t \<and> (\<exists>k. scale s = Value k \<and> scale t = Value k)))
                 (sort_summands idx (summands A)) (sort_summands idx (summands B))
            then (case con A of
                    NaN \<Rightarrow> \<lparr>aliasing = Unknown, distance = 0\<rparr>
                  | Value a \<Rightarrow>
                      (case con B of
                         NaN \<Rightarrow> \<lparr>aliasing = Unknown, distance = 0\<rparr>
                       | Value b \<Rightarrow>
                           if \<bar>sint b - sint a\<bar> < 2 ^ 30
                           then \<lparr>aliasing = Always, distance = word_of_int (sint b - sint a)\<rparr>
                           else \<lparr>aliasing = Unknown, distance = 0\<rparr>))
            else \<lparr>aliasing = Unknown, distance = 0\<rparr>) \<and>
     ((\<exists>i < SUMMANDS_SIZE. variable (sort_summands idx (summands A) ! i)
                            \<noteq> variable (sort_summands idx (summands B) ! i)) \<longrightarrow>
        get_aliasing_with idx A B = Inr \<lparr>aliasing = Unknown, distance = 0\<rparr>) \<and>
     ((\<exists>i < SUMMANDS_SIZE. variable (sort_summands idx (summands A) ! i) \<noteq> None \<and>
                          scale (sort_summands idx (summands A) ! i)
                            \<noteq> scale (sort_summands idx (summands B) ! i)) \<longrightarrow>
        get_aliasing_with idx A B = Inr \<lparr>aliasing = Unknown, distance = 0\<rparr>) \<and>
     (filter_mset (\<lambda>s. variable s \<noteq> None) (mset (summands A))
        \<noteq> filter_mset (\<lambda>s. variable s \<noteq> None) (mset (summands B)) \<longrightarrow>
        get_aliasing_with idx A B = Inr \<lparr>aliasing = Unknown, distance = 0\<rparr>)"
proof -
  let ?sa = "sort_summands idx (summands A)" and ?sb = "sort_summands idx (summands B)"
  let ?P = "\<lambda>s t. (variable s = None \<and> variable t = None) \<or>
                        (variable s = variable t \<and> (\<exists>k. scale s = Value k \<and> scale t = Value k))"
  have eq: "MemPointerSummand_eq s t \<longleftrightarrow> ?P s t" for s t
    by (auto simp add: MemPointerSummand_eq_def NoOverflowInt_eq_def split: NoOverflowInt.splits)
  have P: "list_all2 ?P ?sa ?sb \<longleftrightarrow> list_all2 MemPointerSummand_eq ?sa ?sb"
    by (simp add: list_all2_conv_all_nth eq)
  have w: "word_of_int (sint b - sint a) = b - a" for a b :: jint
    by simp
  have len: "length ?sa = SUMMANDS_SIZE"
    using assms(1) by (simp add: length_sort_summands)
  note cf = get_aliasing_with_closed_form [OF assms, of idx]
  have 1: "mset ?sa = mset (summands A)" "mset ?sb = mset (summands B)"
    by (simp_all add: mset_sort_summands)
  have 2: "list_all (in_idx_range idx) (summands A) \<longrightarrow>
        sorted_wrt (\<lambda>s t. summand_sort_key idx s \<le> summand_sort_key idx t) ?sa"
    "list_all (in_idx_range idx) (summands B) \<longrightarrow>
        sorted_wrt (\<lambda>s t. summand_sort_key idx s \<le> summand_sort_key idx t) ?sb"
    using sorted_sort_summands [of idx "summands A"] sorted_sort_summands [of idx "summands B"]
    by blast+
  have 3: "get_aliasing_with idx A B =
       Inr (if list_all2 ?P ?sa ?sb
            then (case con A of
                    NaN \<Rightarrow> \<lparr>aliasing = Unknown, distance = 0\<rparr>
                  | Value a \<Rightarrow>
                      (case con B of
                         NaN \<Rightarrow> \<lparr>aliasing = Unknown, distance = 0\<rparr>
                       | Value b \<Rightarrow>
                           if \<bar>sint b - sint a\<bar> < 2 ^ 30
                           then \<lparr>aliasing = Always, distance = word_of_int (sint b - sint a)\<rparr>
                           else \<lparr>aliasing = Unknown, distance = 0\<rparr>))
            else \<lparr>aliasing = Unknown, distance = 0\<rparr>)"
    unfolding P cf by (simp add: w split: NoOverflowInt.splits)
  have u: "get_aliasing_with idx A B = Inr \<lparr>aliasing = Unknown, distance = 0\<rparr>"
    if "\<not> list_all2 MemPointerSummand_eq ?sa ?sb"
    using that by (simp add: cf)
  have 4: "(\<exists>i < SUMMANDS_SIZE. variable (?sa ! i) \<noteq> variable (?sb ! i)) \<longrightarrow>
        get_aliasing_with idx A B = Inr \<lparr>aliasing = Unknown, distance = 0\<rparr>"
    using list_all2_eq_nth [of ?sa ?sb] len u by metis
  have 5: "(\<exists>i < SUMMANDS_SIZE. variable (?sa ! i) \<noteq> None \<and> scale (?sa ! i) \<noteq> scale (?sb ! i)) \<longrightarrow>
        get_aliasing_with idx A B = Inr \<lparr>aliasing = Unknown, distance = 0\<rparr>"
    using list_all2_eq_nth [of ?sa ?sb] len u by metis
  have 6: "filter_mset (\<lambda>s. variable s \<noteq> None) (mset (summands A))
        \<noteq> filter_mset (\<lambda>s. variable s \<noteq> None) (mset (summands B)) \<longrightarrow>
        get_aliasing_with idx A B = Inr \<lparr>aliasing = Unknown, distance = 0\<rparr>"
    using summand_sets_of_equal_sorted [of idx "summands A" "summands B"] u by blast
  from 1 2 3 4 5 6 show ?thesis by blast
qed

theorem comparator_procedure_witness:
  "sort_summands of_nat (summands \<lparr>pointer = Some 9,
       summands = [\<lparr>variable = Some 5, scale = Value 1\<rparr>, \<lparr>variable = Some 3, scale = Value 4\<rparr>]
                    @ replicate 8 MemPointerSummand_empty,
       con = Value 16\<rparr>) =
     [\<lparr>variable = Some 3, scale = Value 4\<rparr>, \<lparr>variable = Some 5, scale = Value 1\<rparr>]
       @ replicate 8 MemPointerSummand_empty \<and>
   get_aliasing_with of_nat
     \<lparr>pointer = Some 9,
       summands = [\<lparr>variable = Some 5, scale = Value 1\<rparr>, \<lparr>variable = Some 3, scale = Value 4\<rparr>]
                    @ replicate 8 MemPointerSummand_empty,
       con = Value 16\<rparr>
     \<lparr>pointer = Some 10,
       summands = [\<lparr>variable = Some 3, scale = Value 4\<rparr>, \<lparr>variable = Some 5, scale = Value 1\<rparr>]
                    @ replicate 8 MemPointerSummand_empty,
       con = Value 20\<rparr> = Inr \<lparr>aliasing = Always, distance = 4\<rparr> \<and>
   variable (sort_summands of_nat (summands \<lparr>pointer = Some 9,
       summands = [\<lparr>variable = Some 5, scale = Value 1\<rparr>, \<lparr>variable = Some 3, scale = Value 4\<rparr>]
                    @ replicate 8 MemPointerSummand_empty,
       con = Value 16\<rparr>) ! 1) = Some 5 \<and>
   variable (sort_summands of_nat (summands \<lparr>pointer = Some 11,
       summands = [\<lparr>variable = Some 3, scale = Value 4\<rparr>, \<lparr>variable = Some 6, scale = Value 1\<rparr>]
                    @ replicate 8 MemPointerSummand_empty,
       con = Value 20\<rparr>) ! 1) = Some 6 \<and>
   \<not> MemPointerSummand_eq \<lparr>variable = Some 5, scale = Value 1\<rparr> \<lparr>variable = Some 6, scale = Value 1\<rparr> \<and>
   get_aliasing_with of_nat
     \<lparr>pointer = Some 9,
       summands = [\<lparr>variable = Some 5, scale = Value 1\<rparr>, \<lparr>variable = Some 3, scale = Value 4\<rparr>]
                    @ replicate 8 MemPointerSummand_empty,
       con = Value 16\<rparr>
     \<lparr>pointer = Some 11,
       summands = [\<lparr>variable = Some 3, scale = Value 4\<rparr>, \<lparr>variable = Some 6, scale = Value 1\<rparr>]
                    @ replicate 8 MemPointerSummand_empty,
       con = Value 20\<rparr> = Inr \<lparr>aliasing = Unknown, distance = 0\<rparr> \<and>
   scale (sort_summands of_nat (summands \<lparr>pointer = Some 9,
       summands = [\<lparr>variable = Some 5, scale = Value 1\<rparr>, \<lparr>variable = Some 3, scale = Value 4\<rparr>]
                    @ replicate 8 MemPointerSummand_empty,
       con = Value 16\<rparr>) ! 0) = Value 4 \<and>
   scale (sort_summands of_nat (summands \<lparr>pointer = Some 12,
       summands = [\<lparr>variable = Some 3, scale = Value 8\<rparr>, \<lparr>variable = Some 5, scale = Value 1\<rparr>]
                    @ replicate 8 MemPointerSummand_empty,
       con = Value 20\<rparr>) ! 0) = Value 8 \<and>
   \<not> MemPointerSummand_eq \<lparr>variable = Some 3, scale = Value 4\<rparr> \<lparr>variable = Some 3, scale = Value 8\<rparr> \<and>
   get_aliasing_with of_nat
     \<lparr>pointer = Some 9,
       summands = [\<lparr>variable = Some 5, scale = Value 1\<rparr>, \<lparr>variable = Some 3, scale = Value 4\<rparr>]
                    @ replicate 8 MemPointerSummand_empty,
       con = Value 16\<rparr>
     \<lparr>pointer = Some 12,
       summands = [\<lparr>variable = Some 3, scale = Value 8\<rparr>, \<lparr>variable = Some 5, scale = Value 1\<rparr>]
                    @ replicate 8 MemPointerSummand_empty,
       con = Value 20\<rparr> = Inr \<lparr>aliasing = Unknown, distance = 0\<rparr>"
proof -
  let ?A = "\<lparr>pointer = Some 9,
       summands = [\<lparr>variable = Some 5, scale = Value 1\<rparr>, \<lparr>variable = Some 3, scale = Value 4\<rparr>]
                    @ replicate 8 MemPointerSummand_empty,
       con = Value 16\<rparr>"
  let ?B = "\<lparr>pointer = Some 10,
       summands = [\<lparr>variable = Some 3, scale = Value 4\<rparr>, \<lparr>variable = Some 5, scale = Value 1\<rparr>]
                    @ replicate 8 MemPointerSummand_empty,
       con = Value 20\<rparr>"
  let ?C = "\<lparr>pointer = Some 11,
       summands = [\<lparr>variable = Some 3, scale = Value 4\<rparr>, \<lparr>variable = Some 6, scale = Value 1\<rparr>]
                    @ replicate 8 MemPointerSummand_empty,
       con = Value 20\<rparr>"
  let ?D = "\<lparr>pointer = Some 12,
       summands = [\<lparr>variable = Some 3, scale = Value 8\<rparr>, \<lparr>variable = Some 5, scale = Value 1\<rparr>]
                    @ replicate 8 MemPointerSummand_empty,
       con = Value 20\<rparr>"
  have l: "length (summands ?A) = SUMMANDS_SIZE" "length (summands ?B) = SUMMANDS_SIZE"
    "length (summands ?C) = SUMMANDS_SIZE" "length (summands ?D) = SUMMANDS_SIZE"
    by (simp_all add: SUMMANDS_SIZE_def)
  have s: "sort_summands of_nat (summands ?A) =
     [\<lparr>variable = Some 3, scale = Value 4\<rparr>, \<lparr>variable = Some 5, scale = Value 1\<rparr>]
       @ replicate 8 MemPointerSummand_empty"
    "sort_summands of_nat (summands ?B) =
     [\<lparr>variable = Some 3, scale = Value 4\<rparr>, \<lparr>variable = Some 5, scale = Value 1\<rparr>]
       @ replicate 8 MemPointerSummand_empty"
    "sort_summands of_nat (summands ?C) =
     [\<lparr>variable = Some 3, scale = Value 4\<rparr>, \<lparr>variable = Some 6, scale = Value 1\<rparr>]
       @ replicate 8 MemPointerSummand_empty"
    "sort_summands of_nat (summands ?D) =
     [\<lparr>variable = Some 3, scale = Value 8\<rparr>, \<lparr>variable = Some 5, scale = Value 1\<rparr>]
       @ replicate 8 MemPointerSummand_empty"
    by (simp_all add: eval_nat_numeral cmp_for_sort_def MemPointerSummand_empty_def)
  have c1: "\<exists>i < SUMMANDS_SIZE. variable (sort_summands of_nat (summands ?A) ! i)
                            \<noteq> variable (sort_summands of_nat (summands ?C) ! i)"
    unfolding s by (rule exI [of _ 1]) (simp add: SUMMANDS_SIZE_def)
  have c2: "\<exists>i < SUMMANDS_SIZE. variable (sort_summands of_nat (summands ?A) ! i) \<noteq> None \<and>
                          scale (sort_summands of_nat (summands ?A) ! i)
                            \<noteq> scale (sort_summands of_nat (summands ?D) ! i)"
    unfolding s by (rule exI [of _ 0]) (simp add: SUMMANDS_SIZE_def)
  have e: "list_all2
                 (\<lambda>s t. (variable s = None \<and> variable t = None) \<or>
                        (variable s = variable t \<and> (\<exists>k. scale s = Value k \<and> scale t = Value k)))
                 (sort_summands of_nat (summands ?A)) (sort_summands of_nat (summands ?B))"
    unfolding s by (simp add: eval_nat_numeral MemPointerSummand_empty_def)
  have ab: "get_aliasing_with of_nat ?A ?B = Inr \<lparr>aliasing = Always, distance = 4\<rparr>"
    using comparator_procedure [OF l(1) l(2), of of_nat] e by simp
  have ac: "get_aliasing_with of_nat ?A ?C = Inr \<lparr>aliasing = Unknown, distance = 0\<rparr>"
    using comparator_procedure [OF l(1) l(3), of of_nat] c1 by blast
  have ad: "get_aliasing_with of_nat ?A ?D = Inr \<lparr>aliasing = Unknown, distance = 0\<rparr>"
    using comparator_procedure [OF l(1) l(4), of of_nat] c2 by blast
  have ne: "\<not> MemPointerSummand_eq \<lparr>variable = Some 5, scale = Value 1\<rparr> \<lparr>variable = Some 6, scale = Value 1\<rparr>"
    "\<not> MemPointerSummand_eq \<lparr>variable = Some 3, scale = Value 4\<rparr> \<lparr>variable = Some 3, scale = Value 8\<rparr>"
    by (simp_all add: MemPointerSummand_eq_def NoOverflowInt_eq_def)
  from s ab ac ad ne show ?thesis by simp
qed

subsection \<open>Soundness: the MemPointer Lemma\<close>

text \<open>
  Claim C1, as amended. Let \<open>p1\<close> and \<open>p2\<close> be two pointers and \<open>mp1\<close>, \<open>mp2\<close> their decomposed
  forms, with values \<open>m1\<close> and \<open>m2\<close>, each reached from its pointer by safe decompositions
  (SAFE1 or SAFE2). If (S1) \<open>p1\<close> and \<open>p2\<close> lie within the bounds of the same memory object,
  (S2) the constants of the forms differ by less than \<open>2^31\<close> in absolute value, and (S3) the
  summands of the forms are identical (pairwise equal once sorted), then
  \<open>p1 - p2 = mp1 - mp2\<close>, which is the difference of the constants. \<open>get_aliasing_with\<close>
  returns \<open>Always\<close> with the true pointer distance \<open>p2 - p1\<close> when, moreover, the constants
  differ by less than \<open>2^30\<close>; when they differ by \<open>2^30\<close> or more it returns Unknown.
\<close>

theorem MemPointer_Lemma:
  assumes wf: "length (summands mp1) = SUMMANDS_SIZE" "length (summands mp2) = SUMMANDS_SIZE"
    and v: "form_value env mp1 = Some m1" "form_value env mp2 = Some m2"
    and d: "decomposed_by (array_element_size_in_bytes obj) ms1 p1 m1"
           "decomposed_by (array_element_size_in_bytes obj) ms2 p2 m2"
    and S1: "in_bounds obj p1" "in_bounds obj p2" "valid_object obj"
    and S2: "con mp1 = Value c1" "con mp2 = Value c2" "\<bar>sint c1 - sint c2\<bar> < 2 ^ 31"
    and S3: "list_all2 MemPointerSummand_eq
               (sort_summands idx (summands mp1)) (sort_summands idx (summands mp2))"
  shows "p1 - p2 = m1 - m2 \<and> m1 - m2 = sint c1 - sint c2 \<and>
         get_aliasing_with idx mp1 mp2 =
           Inr (if \<bar>sint c1 - sint c2\<bar> < 2 ^ 30
                then \<lparr>aliasing = Always, distance = word_of_int (p2 - p1)\<rparr>
                else \<lparr>aliasing = Unknown, distance = 0\<rparr>) \<and>
         sint (word_of_int (p2 - p1) :: jint) = p2 - p1"
proof -
  have m: "m1 - m2 = sint c1 - sint c2"
    using S3 v S2(1,2) by (rule form_value_diff)
  with S2 have "\<bar>m1 - m2\<bar> < 2 ^ 31" by simp
  with d S1 have p: "p1 - p2 = m1 - m2" by (rule MemPointer_Lemma_values)
  have pc: "p2 - p1 = sint c2 - sint c1" using p m by simp
  have abs: "\<bar>sint c2 - sint c1\<bar> = \<bar>sint c1 - sint c2\<bar>" by simp
  have g: "get_aliasing_with idx mp1 mp2 =
           Inr (if \<bar>sint c1 - sint c2\<bar> < 2 ^ 30
                then \<lparr>aliasing = Always, distance = c2 - c1\<rparr>
                else \<lparr>aliasing = Unknown, distance = 0\<rparr>)"
    using S2(1,2) S3 by (simp add: get_aliasing_with_closed_form [OF wf] abs)
  have s: "sint (word_of_int (p2 - p1) :: jint) = p2 - p1"
    using S2(3) unfolding pc by (intro sint_word_of_int_32) linarith+
  from p m g s show ?thesis by (simp add: pc)
qed

theorem MemPointer_Lemma_witness:
  "form_value int
     \<lparr>pointer = Some 9,
       summands = [\<lparr>variable = Some 1000, scale = Value 1\<rparr>, \<lparr>variable = Some 7, scale = Value 4\<rparr>]
                    @ replicate 8 MemPointerSummand_empty,
       con = Value 16\<rparr> = Some 1044 \<and>
   form_value int
     \<lparr>pointer = Some 10,
       summands = [\<lparr>variable = Some 7, scale = Value 4\<rparr>, \<lparr>variable = Some 1000, scale = Value 1\<rparr>]
                    @ replicate 8 MemPointerSummand_empty,
       con = Value 20\<rparr> = Some 1048 \<and>
   decomposed_by (Some 4) [1044, 1044 - 4 * 2 ^ 32, 1044] 1044 1044 \<and>
   decomposed_by (Some 4) [1048] 1048 1048 \<and>
   in_bounds \<lparr>base = 1000, size_in_bytes = 4096, array_element_size_in_bytes = Some 4\<rparr> 1044 \<and>
   in_bounds \<lparr>base = 1000, size_in_bytes = 4096, array_element_size_in_bytes = Some 4\<rparr> 1048 \<and>
   valid_object \<lparr>base = 1000, size_in_bytes = 4096, array_element_size_in_bytes = Some 4\<rparr> \<and>
   get_aliasing_with of_nat
     \<lparr>pointer = Some 9,
       summands = [\<lparr>variable = Some 1000, scale = Value 1\<rparr>, \<lparr>variable = Some 7, scale = Value 4\<rparr>]
                    @ replicate 8 MemPointerSummand_empty,
       con = Value 16\<rparr>
     \<lparr>pointer = Some 10,
       summands = [\<lparr>variable = Some 7, scale = Value 4\<rparr>, \<lparr>variable = Some 1000, scale = Value 1\<rparr>]
                    @ replicate 8 MemPointerSummand_empty,
       con = Value 20\<rparr> = Inr \<lparr>aliasing = Always, distance = word_of_int (1048 - 1044)\<rparr>"
proof -
  let ?A = "\<lparr>pointer = Some 9,
       summands = [\<lparr>variable = Some 1000, scale = Value 1\<rparr>, \<lparr>variable = Some 7, scale = Value 4\<rparr>]
                    @ replicate 8 MemPointerSummand_empty,
       con = Value 16\<rparr>"
  let ?B = "\<lparr>pointer = Some 10,
       summands = [\<lparr>variable = Some 7, scale = Value 4\<rparr>, \<lparr>variable = Some 1000, scale = Value 1\<rparr>]
                    @ replicate 8 MemPointerSummand_empty,
       con = Value 20\<rparr>"
  let ?obj = "\<lparr>base = 1000, size_in_bytes = 4096, array_element_size_in_bytes = Some 4\<rparr>"
  have wf: "length (summands ?A) = SUMMANDS_SIZE" "length (summands ?B) = SUMMANDS_SIZE"
    by (simp_all add: SUMMANDS_SIZE_def)
  have v: "form_value int ?A = Some 1044" "form_value int ?B = Some 1048"
    by (simp_all add: form_value_def summand_value_def MemPointerSummand_empty_def
        eval_nat_numeral)
  have d: "decomposed_by (array_element_size_in_bytes ?obj) [1044, 1044 - 4 * 2 ^ 32, 1044] 1044 1044"
    "decomposed_by (array_element_size_in_bytes ?obj) [1048] 1048 1048"
    by (simp_all add: decomposed_by_def safe_decomposition_def)
  have S1: "in_bounds ?obj 1044" "in_bounds ?obj 1048" "valid_object ?obj"
    by (simp_all add: in_bounds_def valid_object_def)
  have S2: "con ?A = Value 16" "con ?B = Value 20" "\<bar>sint (16 :: jint) - sint (20 :: jint)\<bar> < 2 ^ 31"
    by simp_all
  have S3: "list_all2 MemPointerSummand_eq
               (sort_summands of_nat (summands ?A)) (sort_summands of_nat (summands ?B))"
    by (simp add: eval_nat_numeral cmp_for_sort_def MemPointerSummand_empty_def
      MemPointerSummand_eq_def NoOverflowInt_eq_def make_NaN_def)
  from MemPointer_Lemma [OF wf v d S1 S2 S3] v d S1 show ?thesis
    by simp
qed

text \<open>
  The claim as first stated lets the comparator return \<open>Always\<close> whenever the constants
  differ by less than \<open>2^31\<close>. Two forms with the same single summand and the constants
  \<open>0\<close> and \<open>2^30\<close>, for two pointers \<open>2^30\<close> bytes apart in one array of \<open>2^31\<close> bytes, meet
  S1, S2 and S3, and the comparator returns Unknown.
\<close>

theorem comparator_unknown_at_2_30:
  "form_value int
     \<lparr>pointer = Some 1000,
       summands = \<lparr>variable = Some 1000, scale = Value 1\<rparr> # replicate 9 MemPointerSummand_empty,
       con = Value 0\<rparr> = Some 1000 \<and>
   form_value int
     \<lparr>pointer = Some 1000,
       summands = \<lparr>variable = Some 1000, scale = Value 1\<rparr> # replicate 9 MemPointerSummand_empty,
       con = Value (2 ^ 30)\<rparr> = Some (1000 + 2 ^ 30) \<and>
   decomposed_by (Some 1) [1000] 1000 1000 \<and>
   decomposed_by (Some 1) [1000 + 2 ^ 30] (1000 + 2 ^ 30) (1000 + 2 ^ 30) \<and>
   in_bounds \<lparr>base = 1000, size_in_bytes = 2 ^ 31, array_element_size_in_bytes = Some 1\<rparr> 1000 \<and>
   in_bounds \<lparr>base = 1000, size_in_bytes = 2 ^ 31, array_element_size_in_bytes = Some 1\<rparr> (1000 + 2 ^ 30) \<and>
   valid_object \<lparr>base = 1000, size_in_bytes = 2 ^ 31, array_element_size_in_bytes = Some 1\<rparr> \<and>
   \<bar>sint (0 :: jint) - sint (2 ^ 30 :: jint)\<bar> < 2 ^ 31 \<and>
   list_all2 MemPointerSummand_eq
     (sort_summands of_nat (summands \<lparr>pointer = Some 1000,
       summands = \<lparr>variable = Some 1000, scale = Value 1\<rparr> # replicate 9 MemPointerSummand_empty,
       con = Value 0\<rparr>))
     (sort_summands of_nat (summands \<lparr>pointer = Some 1000,
       summands = \<lparr>variable = Some 1000, scale = Value 1\<rparr> # replicate 9 MemPointerSummand_empty,
       con = Value (2 ^ 30)\<rparr>)) \<and>
   get_aliasing_with of_nat
     \<lparr>pointer = Some 1000,
       summands = \<lparr>variable = Some 1000, scale = Value 1\<rparr> # replicate 9 MemPointerSummand_empty,
       con = Value 0\<rparr>
     \<lparr>pointer = Some 1000,
       summands = \<lparr>variable = Some 1000, scale = Value 1\<rparr> # replicate 9 MemPointerSummand_empty,
       con = Value (2 ^ 30)\<rparr> = Inr \<lparr>aliasing = Unknown, distance = 0\<rparr>"
proof -
  let ?A = "\<lparr>pointer = Some 1000,
       summands = \<lparr>variable = Some 1000, scale = Value 1\<rparr> # replicate 9 MemPointerSummand_empty,
       con = Value 0\<rparr>"
  let ?B = "\<lparr>pointer = Some 1000,
       summands = \<lparr>variable = Some 1000, scale = Value 1\<rparr> # replicate 9 MemPointerSummand_empty,
       con = Value (2 ^ 30)\<rparr>"
  have wf: "length (summands ?A) = SUMMANDS_SIZE" "length (summands ?B) = SUMMANDS_SIZE"
    by (simp_all add: SUMMANDS_SIZE_def)
  have v: "form_value int ?A = Some 1000" "form_value int ?B = Some (1000 + 2 ^ 30)"
    by (simp_all add: form_value_def summand_value_def MemPointerSummand_empty_def
        eval_nat_numeral)
  have S3: "list_all2 MemPointerSummand_eq
               (sort_summands of_nat (summands ?A)) (sort_summands of_nat (summands ?B))"
    by (simp add: sort_summands_trivial list_all2_replicate_empty
        MemPointerSummand_eq_def NoOverflowInt_eq_def del: sort_summands.simps)
  have g: "get_aliasing_with of_nat ?A ?B = Inr \<lparr>aliasing = Unknown, distance = 0\<rparr>"
    unfolding get_aliasing_with_closed_form [OF wf] using S3 by simp
  from v S3 g show ?thesis
    by (simp add: decomposed_by_def in_bounds_def valid_object_def)
qed

subsection \<open>Adjacency\<close>

text \<open>
  Claim C6. \<open>is_adjacent_to_and_before self other\<close> returns a truth value, and that value
  is true if and only if the comparator, called on the form of \<open>self\<close> with the form of
  \<open>other\<close>, returns \<open>Always(distance)\<close> with \<open>distance\<close> the byte width \<open>memory_size\<close> of
  \<open>self\<close>'s access; that is, if and only if the two forms have identical summands and the
  constant of \<open>other\<close> is the constant of \<open>self\<close> plus the byte width of \<open>self\<close>: \<open>self\<close> ends
  exactly where \<open>other\<close> begins.
\<close>

theorem adjacency_predicate:
  assumes "length (summands (decomposed_form self)) = SUMMANDS_SIZE"
    and "length (summands (decomposed_form other)) = SUMMANDS_SIZE"
  shows "\<exists>r. is_adjacent_to_and_before idx self other = Inr r \<and>
     (r \<longleftrightarrow> get_aliasing_with idx (decomposed_form self) (decomposed_form other) =
              Inr \<lparr>aliasing = Always, distance = memory_size (mem self)\<rparr>) \<and>
     (r \<longleftrightarrow> list_all2 MemPointerSummand_eq
               (sort_summands idx (summands (decomposed_form self)))
               (sort_summands idx (summands (decomposed_form other))) \<and>
            (\<exists>a b. con (decomposed_form self) = Value a \<and> con (decomposed_form other) = Value b \<and>
                   sint b - sint a = sint (memory_size (mem self)) \<and>
                   \<bar>sint b - sint a\<bar> < 2 ^ 30))"
proof -
  obtain v where v: "get_aliasing_with idx (decomposed_form self) (decomposed_form other) = Inr v"
    using get_aliasing_with_total by blast
  have r: "is_adjacent_to_and_before idx self other =
             Inr (v = \<lparr>aliasing = Always, distance = memory_size (mem self)\<rparr>)"
    by (simp add: is_adjacent_to_and_before_def v is_always_at_distance_iff)
  have c: "v = \<lparr>aliasing = Always, distance = memory_size (mem self)\<rparr> \<longleftrightarrow>
      list_all2 MemPointerSummand_eq
               (sort_summands idx (summands (decomposed_form self)))
               (sort_summands idx (summands (decomposed_form other))) \<and>
            (\<exists>a b. con (decomposed_form self) = Value a \<and> con (decomposed_form other) = Value b \<and>
                   sint b - sint a = sint (memory_size (mem self)) \<and>
                   \<bar>sint b - sint a\<bar> < 2 ^ 30)"
    using v unfolding get_aliasing_with_closed_form [OF assms]
    by (auto simp add: diff_eq_iff_sint split: NoOverflowInt.splits if_splits)
  show ?thesis
    unfolding r using v c by simp
qed

theorem adjacency_predicate_witness:
  "is_adjacent_to_and_before of_nat
     \<lparr>mem = \<lparr>is_Store = True, memory_size = 4, address = Some 9\<rparr>,
      decomposed_form = \<lparr>pointer = Some 9,
       summands = [\<lparr>variable = Some 1000, scale = Value 1\<rparr>, \<lparr>variable = Some 7, scale = Value 4\<rparr>]
                    @ replicate 8 MemPointerSummand_empty,
       con = Value 16\<rparr>\<rparr>
     \<lparr>mem = \<lparr>is_Store = True, memory_size = 4, address = Some 10\<rparr>,
      decomposed_form = \<lparr>pointer = Some 10,
       summands = [\<lparr>variable = Some 7, scale = Value 4\<rparr>, \<lparr>variable = Some 1000, scale = Value 1\<rparr>]
                    @ replicate 8 MemPointerSummand_empty,
       con = Value 20\<rparr>\<rparr> = Inr True \<and>
   get_aliasing_with of_nat
     \<lparr>pointer = Some 9,
       summands = [\<lparr>variable = Some 1000, scale = Value 1\<rparr>, \<lparr>variable = Some 7, scale = Value 4\<rparr>]
                    @ replicate 8 MemPointerSummand_empty,
       con = Value 16\<rparr>
     \<lparr>pointer = Some 10,
       summands = [\<lparr>variable = Some 7, scale = Value 4\<rparr>, \<lparr>variable = Some 1000, scale = Value 1\<rparr>]
                    @ replicate 8 MemPointerSummand_empty,
       con = Value 20\<rparr> = Inr \<lparr>aliasing = Always, distance = 4\<rparr> \<and>
   sint (20 :: jint) - sint (16 :: jint) = sint (4 :: jint)"
  using adjacency_predicate [of
     "\<lparr>mem = \<lparr>is_Store = True, memory_size = 4, address = Some 9\<rparr>,
      decomposed_form = \<lparr>pointer = Some 9,
       summands = [\<lparr>variable = Some 1000, scale = Value 1\<rparr>, \<lparr>variable = Some 7, scale = Value 4\<rparr>]
                    @ replicate 8 MemPointerSummand_empty,
       con = Value 16\<rparr>\<rparr>"
     "\<lparr>mem = \<lparr>is_Store = True, memory_size = 4, address = Some 10\<rparr>,
      decomposed_form = \<lparr>pointer = Some 10,
       summands = [\<lparr>variable = Some 7, scale = Value 4\<rparr>, \<lparr>variable = Some 1000, scale = Value 1\<rparr>]
                    @ replicate 8 MemPointerSummand_empty,
       con = Value 20\<rparr>\<rparr>" of_nat]
  by (simp add: SUMMANDS_SIZE_def eval_nat_numeral cmp_for_sort_def MemPointerSummand_empty_def
      MemPointerSummand_eq_def NoOverflowInt_eq_def make_NaN_def)

subsection \<open>Termination of the parser\<close>




subsection \<open>Construction of decomposed forms\<close>

text \<open>
  Claim C4. No construction yields a form with an invalid constant. A form returned by
  \<open>MemPointerDecomposedForm_make\<close> has a valid constant, and the trivial form has the
  constant 0. The parser always returns a form, never a failed assertion, and the constant
  of that form is valid. When folding a literal makes the accumulated constant NaN, the
  loop stops there with the fallback, and on the fallback the parser returns the trivial
  form of the pointer: the pointer with scale 1 and the constant 0.
\<close>

theorem constant_never_NaN:
  "(MemPointerDecomposedForm_make p ss c = Inr f \<longrightarrow> \<not> is_NaN (con f)) \<and>
   (MemPointerDecomposedForm_trivial p = Inr f \<longrightarrow> con f = Value 0) \<and>
   (parse_decomposed_form g safe fuel ptr = Some (r, vis) \<longrightarrow>
      (\<exists>f'. r = Inr f' \<and> \<not> is_NaN (con f'))) \<and>
   (p_worklist st = \<lparr>variable = Some v, scale = s\<rparr> # wl \<and> node_at g v = Literal k \<and>
    is_NaN (NoOverflowInt_add (p_con st) (NoOverflowInt_mul s (NoOverflowInt_of k))) \<longrightarrow>
      parse_loop g safe (Suc fuel) st visited = Some (Fallback, visited @ [v])) \<and>
   (parse_loop g safe fuel
      \<lparr>p_con = NoOverflowInt_of 0,
         p_worklist = [\<lparr>variable = Some ptr, scale = NoOverflowInt_of 1\<rparr>],
         p_summands = []\<rparr> [] = Some (Fallback, vis) \<longrightarrow>
      parse_decomposed_form g safe fuel ptr =
        Some (Inr \<lparr>pointer = Some ptr,
            summands = \<lparr>variable = Some ptr, scale = Value 1\<rparr> # replicate 9 MemPointerSummand_empty,
            con = Value 0\<rparr>, vis))"
proof -
  let ?init = "\<lparr>p_con = NoOverflowInt_of 0,
         p_worklist = [\<lparr>variable = Some ptr, scale = NoOverflowInt_of 1\<rparr>],
         p_summands = []\<rparr>"
  have a: "MemPointerDecomposedForm_make p ss c = Inr f \<longrightarrow> \<not> is_NaN (con f)"
    using MemPointerDecomposedForm_ctor_con [of p ss c f]
      MemPointerDecomposedForm_trivial_con [of p f]
    by (auto simp add: MemPointerDecomposedForm_make_def is_NaN_def split: if_splits)
  have b: "MemPointerDecomposedForm_trivial p = Inr f \<longrightarrow> con f = Value 0"
    using MemPointerDecomposedForm_trivial_con [of p f] by blast
  have c: "\<exists>f'. r = Inr f' \<and> \<not> is_NaN (con f')"
    if r: "parse_decomposed_form g safe fuel ptr = Some (r, vis)"
  proof (cases "parse_loop g safe fuel ?init []")
    case None
    with r show ?thesis by (simp add: parse_decomposed_form_def del: parse_loop.simps)
  next
    case (Some res)
    obtain o' vis' where res: "res = (o', vis')" by (cases res)
    show ?thesis
    proof (cases o')
      case Fallback
      with r Some res show ?thesis
        by (auto simp add: parse_decomposed_form_def MemPointerDecomposedForm_trivial_Some
            is_NaN_def simp del: parse_loop.simps)
    next
      case (Continue st')
      have "parser_invariant ?init"
        by (simp add: parser_invariant_def NoOverflowInt_of_0 is_NaN_def)
      with Some res Continue have inv: "parser_invariant st'"
        using parse_loop_invariant [of ?init g safe fuel "[]" st' vis'] by simp
      show ?thesis
      proof (cases "list_ex (\<lambda>s. is_NaN (scale s)) (p_summands st')")
        case True
        with r Some res Continue show ?thesis
          by (auto simp add: parse_decomposed_form_def MemPointerDecomposedForm_trivial_Some
              is_NaN_def simp del: parse_loop.simps)
      next
        case False
        with inv have "list_all (\<lambda>s. variable s \<noteq> None \<and> \<not> is_NaN (scale s)) (p_summands st')"
          by (auto simp add: parser_invariant_def list_all_iff list_ex_iff)
        with inv obtain f' where
          f': "MemPointerDecomposedForm_make (Some ptr) (p_summands st') (p_con st') = Inr f'"
          "con f' = p_con st'"
          using MemPointerDecomposedForm_make_succeeds [of "p_con st'" "p_summands st'" "Some ptr"]
          by (auto simp add: parser_invariant_def)
        from r Some res Continue False inv have
          "r = MemPointerDecomposedForm_make (Some ptr) (p_summands st') (p_con st')"
          by (simp add: parse_decomposed_form_def parser_invariant_def del: parse_loop.simps)
        with f' inv show ?thesis
          by (simp add: parser_invariant_def)
      qed
    qed
  qed
  have d: "p_worklist st = \<lparr>variable = Some v, scale = s\<rparr> # wl \<and> node_at g v = Literal k \<and>
    is_NaN (NoOverflowInt_add (p_con st) (NoOverflowInt_mul s (NoOverflowInt_of k))) \<longrightarrow>
      parse_loop g safe (Suc fuel) st visited = Some (Fallback, visited @ [v])"
    by (simp add: parse_sub_expression_def Let_def)
  have e: "parse_loop g safe fuel ?init [] = Some (Fallback, vis) \<longrightarrow>
      parse_decomposed_form g safe fuel ptr =
        Some (Inr \<lparr>pointer = Some ptr,
            summands = \<lparr>variable = Some ptr, scale = Value 1\<rparr> # replicate 9 MemPointerSummand_empty,
            con = Value 0\<rparr>, vis)"
    by (simp add: parse_decomposed_form_def MemPointerDecomposedForm_trivial_Some
        del: parse_loop.simps)
  from a b c d e show ?thesis by blast
qed

theorem constant_never_NaN_witness:
  "parse_decomposed_form (map_of [(9, Add 8 7), (8, Literal 2147483647), (7, Literal 1)]) top 50 9 =
     Some (Inr \<lparr>pointer = Some 9,
            summands = \<lparr>variable = Some 9, scale = Value 1\<rparr> # replicate 9 MemPointerSummand_empty,
            con = Value 0\<rparr>, [9, 7, 8]) \<and>
   \<not> is_NaN (Value 0) \<and>
   is_NaN (NoOverflowInt_add (Value 1) (NoOverflowInt_mul (Value 1) (NoOverflowInt_of 2147483647))) \<and>
   MemPointerDecomposedForm_make (Some 1) [\<lparr>variable = Some 2, scale = Value 4\<rparr>] (Value 16) =
     Inr \<lparr>pointer = Some 1,
          summands = \<lparr>variable = Some 2, scale = Value 4\<rparr> # replicate 9 MemPointerSummand_empty,
          con = Value 16\<rparr>"
proof -
  have e: "parse_decomposed_form (map_of [(9, Add 8 7), (8, Literal 2147483647), (7, Literal 1)]) top 50 9 =
     Some (Inr \<lparr>pointer = Some 9,
            summands = \<lparr>variable = Some 9, scale = Value 1\<rparr> # replicate 9 MemPointerSummand_empty,
            con = Value 0\<rparr>, [9, 7, 8])"
    by code_simp
  have n: "is_NaN (NoOverflowInt_add (Value 1) (NoOverflowInt_mul (Value 1) (NoOverflowInt_of 2147483647)))"
    by (simp add: NoOverflowInt_add_def NoOverflowInt_mul_def NoOverflowInt_of_def is_NaN_def)
  have m: "MemPointerDecomposedForm_make (Some 1) [\<lparr>variable = Some 2, scale = Value 4\<rparr>] (Value 16) =
     Inr \<lparr>pointer = Some 1,
          summands = \<lparr>variable = Some 2, scale = Value 4\<rparr> # replicate 9 MemPointerSummand_empty,
          con = Value 16\<rparr>"
    by (simp add: MemPointerDecomposedForm_make_def MemPointerDecomposedForm_ctor_def
      is_NaN_def SUMMANDS_SIZE_def empty_summands_unfold)
  from constant_never_NaN [of "Some 1" "[\<lparr>variable = Some 2, scale = Value 4\<rparr>]" "Value 16"
      "\<lparr>pointer = Some 1,
          summands = \<lparr>variable = Some 2, scale = Value 4\<rparr> # replicate 9 MemPointerSummand_empty,
          con = Value 16\<rparr>"
      "(map_of [(9, Add 8 7), (8, Literal 2147483647), (7, Literal 1)])" top 50 9
      "Inr \<lparr>pointer = Some 9,
            summands = \<lparr>variable = Some 9, scale = Value 1\<rparr> # replicate 9 MemPointerSummand_empty,
            con = Value 0\<rparr>" "[9, 7, 8]"] e n m
  show ?thesis by (simp add: is_NaN_def)
qed

end
